theory Spec2Isabelle
  imports Complex_Main
begin

section \<open>Python values and exceptions\<close>

text \<open>
  The script \<^verbatim>\<open>getcitatations.py\<close> is embedded function by function. Every Python
  exception that a modelled statement can raise is a value of \<open>py_exception\<close> (all of
  them are subclasses of \<^verbatim>\<open>Exception\<close>, so \<^verbatim>\<open>except Exception\<close> catches each one); a
  computation that may raise has a result of type \<open>py_exception + 'a\<close>, with \<open>Inl\<close> for
  the raised exception.
\<close>

datatype py_exception =
    ConnectionError | Timeout | JSONDecodeError | OSError | EmptyDataError | ParserError
  | AttributeError | TypeError | KeyError | IndexError | ValueError | ZeroDivisionError

text \<open>
  The values that \<^verbatim>\<open>response.json()\<close> can produce and that a result row can hold:
  \<^verbatim>\<open>None\<close>, booleans, integers, floats, strings, lists and dictionaries with string
  keys (in insertion order, keys unique). Strings are lists of code points below 256.
  A finite float is given by its exact value, \<open>PNaN\<close> is the float \<^verbatim>\<open>nan\<close>; the
  infinite floats are not modelled.
\<close>

datatype pyval =
    PNone | PBool bool | PInt int | PFloat rat | PNaN | PStr string
  | PList "pyval list" | PDict "(string \<times> pyval) list"

definition and_then :: "py_exception + 'a \<Rightarrow> ('a \<Rightarrow> py_exception + 'b) \<Rightarrow> py_exception + 'b" where
  "and_then m f = (case m of Inl e \<Rightarrow> Inl e | Inr v \<Rightarrow> f v)"

text \<open>\<^verbatim>\<open>try: body  except Exception as e: handler\<close>\<close>

definition try_except :: "py_exception + 'a \<Rightarrow> (py_exception \<Rightarrow> py_exception + 'a) \<Rightarrow> py_exception + 'a" where
  "try_except body handler = (case body of Inl e \<Rightarrow> handler e | Inr v \<Rightarrow> Inr v)"

section \<open>String operations\<close>

text \<open>\<^verbatim>\<open>str.isspace\<close> on one code point below 256.\<close>

definition is_space :: "char \<Rightarrow> bool" where
  "is_space c = (let n = (of_char c :: nat) in
     (9 \<le> n \<and> n \<le> 13) \<or> (28 \<le> n \<and> n \<le> 32) \<or> n = 133 \<or> n = 160)"

text \<open>\<^verbatim>\<open>s.strip()\<close>\<close>

definition strip :: "string \<Rightarrow> string" where
  "strip s = rev (dropWhile is_space (rev (dropWhile is_space s)))"

text \<open>\<^verbatim>\<open>s.startswith(p)\<close> and \<^verbatim>\<open>s.endswith(p)\<close>\<close>

definition startswith :: "string \<Rightarrow> string \<Rightarrow> bool" where
  "startswith s p = (take (length p) s = p)"

definition endswith :: "string \<Rightarrow> string \<Rightarrow> bool" where
  "endswith s p = (length p \<le> length s \<and> drop (length s - length p) s = p)"

text \<open>
  \<^verbatim>\<open>s.replace(old, new)\<close> for a non-empty \<open>old\<close>: the string is scanned from the left
  and every non-overlapping occurrence of \<open>old\<close> is replaced.
\<close>

function replace_scan :: "string \<Rightarrow> string \<Rightarrow> string \<Rightarrow> string" where
  "replace_scan old new [] = []"
| "replace_scan old new (c # cs) =
     (if old \<noteq> [] \<and> startswith (c # cs) old
      then new @ replace_scan old new (drop (length old) (c # cs))
      else c # replace_scan old new cs)"
  by pat_completeness auto
termination
  by (relation "measure (\<lambda>(old, new, s). length s)") (auto simp: neq_Nil_conv)

text \<open>With an empty \<open>old\<close>, Python puts \<open>new\<close> before every character and at the end.\<close>

definition replace :: "string \<Rightarrow> string \<Rightarrow> string \<Rightarrow> string" where
  "replace s old new =
     (if old = [] then new @ concat (map (\<lambda>c. c # new) s) else replace_scan old new s)"

text \<open>\<^verbatim>\<open>sub in s\<close> for strings.\<close>

fun contains_str :: "string \<Rightarrow> string \<Rightarrow> bool" where
  "contains_str [] sub = (sub = [])"
| "contains_str (c # cs) sub = (startswith (c # cs) sub \<or> contains_str cs sub)"

text \<open>\<^verbatim>\<open>s.split(sep)\<close> for a separator of one character: never an empty list.\<close>

fun split :: "string \<Rightarrow> char \<Rightarrow> string list" where
  "split [] sep = [[]]"
| "split (c # cs) sep =
     (if c = sep then [] # split cs sep
      else (case split cs sep of [] \<Rightarrow> [[c]] | p # ps \<Rightarrow> (c # p) # ps))"

section \<open>Identifier Loader\<close>

text \<open>
  What the operating system and pandas give to \<^verbatim>\<open>load_dois_from_file\<close>:
  \<^item> \<open>open_lines path\<close>: the lines of the text file, or the exception \<^verbatim>\<open>open\<close> raises;
  \<^item> \<open>read_table path\<close>: the table \<^verbatim>\<open>pd.read_csv(path)\<close> returns, as its columns in
    order, each with its name and its cells (\<open>None\<close> for a missing cell, which
    \<^verbatim>\<open>dropna\<close> removes, \<open>Some s\<close> for a cell that \<^verbatim>\<open>astype(str)\<close> renders as \<open>s\<close>).
\<close>

record input_disk =
  open_lines :: "string \<Rightarrow> py_exception + string list"
  read_table :: "string \<Rightarrow> py_exception + (string \<times> string option list) list"

text \<open>\<^verbatim>\<open>series.dropna().astype(str).tolist()\<close>\<close>

definition dropna_tolist :: "string option list \<Rightarrow> string list" where
  "dropna_tolist cells = concat (map (\<lambda>c. case c of None \<Rightarrow> [] | Some s \<Rightarrow> [s]) cells)"

text \<open>Lines 28 to 38: the raw identifiers, before cleaning.\<close>

definition read_dois :: "input_disk \<Rightarrow> string \<Rightarrow> py_exception + string list" where
  "read_dois disk filepath =
     (if endswith filepath ''.csv'' then
        and_then (read_table disk filepath) (\<lambda>df.
          case map_of df ''doi'' of
            Some col \<Rightarrow> Inr (dropna_tolist col)
          | None \<Rightarrow> (case df of [] \<Rightarrow> Inl IndexError | (name, col) # rest \<Rightarrow> Inr (dropna_tolist col)))
      else
        and_then (open_lines disk filepath) (\<lambda>f.
          Inr (map strip (filter (\<lambda>line. strip line \<noteq> []) f))))"

text \<open>Lines 43 to 47: the cleaning of one identifier.\<close>

definition clean_doi :: "string \<Rightarrow> string" where
  "clean_doi doi0 =
     (let doi = strip doi0 in
      if startswith doi ''https://doi.org/'' then replace doi ''https://doi.org/'' ''''
      else if startswith doi ''doi:'' then replace doi ''doi:'' ''''
      else doi)"

text \<open>Lines 41 to 49: the loop that fills \<open>cleaned_dois\<close>.\<close>

definition clean_dois :: "string list \<Rightarrow> string list" where
  "clean_dois dois = filter (\<lambda>doi. doi \<noteq> []) (map clean_doi dois)"

definition load_dois_from_file :: "input_disk \<Rightarrow> string \<Rightarrow> string list" where
  "load_dois_from_file disk filepath =
     (case try_except (and_then (read_dois disk filepath) (\<lambda>dois. Inr (clean_dois dois)))
             (\<lambda>e. Inr [])
      of Inl e \<Rightarrow> [] | Inr cleaned \<Rightarrow> cleaned)"

section \<open>Truthiness, equality and ordering of Python values\<close>

text \<open>\<^verbatim>\<open>bool(v)\<close>, as \<^verbatim>\<open>any\<close> and \<^verbatim>\<open>filter(None, ...)\<close> use it.\<close>

fun truthy :: "pyval \<Rightarrow> bool" where
  "truthy PNone = False"
| "truthy (PBool b) = b"
| "truthy (PInt n) = (n \<noteq> 0)"
| "truthy (PFloat x) = (x \<noteq> 0)"
| "truthy PNaN = True"
| "truthy (PStr s) = (s \<noteq> [])"
| "truthy (PList xs) = (xs \<noteq> [])"
| "truthy (PDict kvs) = (kvs \<noteq> [])"

text \<open>
  Booleans count as the integers 0 and 1 in comparisons, and integers are compared with
  floats by their exact values. \<^verbatim>\<open>nan\<close> is a number that has no value: it is equal to
  nothing and greater than nothing.
\<close>

fun as_number :: "pyval \<Rightarrow> rat option" where
  "as_number (PBool b) = Some (if b then 1 else 0)"
| "as_number (PInt n) = Some (of_int n)"
| "as_number (PFloat x) = Some x"
| "as_number _ = None"

fun is_number :: "pyval \<Rightarrow> bool" where
  "is_number (PBool b) = True"
| "is_number (PInt n) = True"
| "is_number (PFloat x) = True"
| "is_number PNaN = True"
| "is_number _ = False"

text \<open>\<^verbatim>\<open>x == y\<close>\<close>

fun py_eq :: "pyval \<Rightarrow> pyval \<Rightarrow> bool" where
  "py_eq (PList xs) (PList ys) = list_all2 py_eq xs ys"
| "py_eq (PDict a) (PDict b) =
     (length a = length b \<and>
      list_all (\<lambda>(k, v). list_ex (\<lambda>(k', v'). k = k' \<and> py_eq v v') b) a)"
| "py_eq (PStr s) (PStr t) = (s = t)"
| "py_eq PNone PNone = True"
| "py_eq x y = (case (as_number x, as_number y) of (Some m, Some n) \<Rightarrow> m = n | _ \<Rightarrow> False)"

text \<open>\<^verbatim>\<open>s > t\<close> on strings: by code point, a proper prefix is smaller.\<close>

fun str_gt :: "string \<Rightarrow> string \<Rightarrow> bool" where
  "str_gt [] t = False"
| "str_gt (c # cs) [] = True"
| "str_gt (c # cs) (d # ds) =
     (if c = d then str_gt cs ds else (of_char d :: nat) < of_char c)"

text \<open>
  \<^verbatim>\<open>x > y\<close>: numbers with numbers, strings with strings, lists with lists (decided at
  the first pair of unequal elements, else by length); anything else is a TypeError.
\<close>

fun py_gt :: "pyval \<Rightarrow> pyval \<Rightarrow> py_exception + bool" where
  "py_gt (PList []) (PList ys) = Inr False"
| "py_gt (PList (x # xs)) (PList []) = Inr True"
| "py_gt (PList (x # xs)) (PList (y # ys)) =
     (if py_eq x y then py_gt (PList xs) (PList ys) else py_gt x y)"
| "py_gt (PStr s) (PStr t) = Inr (str_gt s t)"
| "py_gt x y =
     (if is_number x \<and> is_number y
      then Inr (case (as_number x, as_number y) of (Some m, Some n) \<Rightarrow> n < m | _ \<Rightarrow> False)
      else Inl TypeError)"

text \<open>
  \<^verbatim>\<open>max(iterable)\<close>: ValueError on an empty iterable; otherwise the first item is the
  candidate and a later item replaces it when \<^verbatim>\<open>item > candidate\<close>.
\<close>

fun max_from :: "pyval \<Rightarrow> pyval list \<Rightarrow> py_exception + pyval" where
  "max_from m [] = Inr m"
| "max_from m (item # rest) =
     and_then (py_gt item m) (\<lambda>b. max_from (if b then item else m) rest)"

definition py_max :: "pyval list \<Rightarrow> py_exception + pyval" where
  "py_max xs = (case xs of [] \<Rightarrow> Inl ValueError | x # rest \<Rightarrow> max_from x rest)"

text \<open>Line 191: the value stored under \<^verbatim>\<open>'max_citations'\<close>.\<close>

definition max_citations :: "pyval \<Rightarrow> pyval \<Rightarrow> pyval \<Rightarrow> py_exception + pyval" where
  "max_citations crossref_count openalex_count dimensions_count =
     (if list_ex truthy [crossref_count, openalex_count, dimensions_count]
      then py_max (filter truthy [crossref_count, openalex_count, dimensions_count])
      else Inr (PInt 0))"

section \<open>Dictionary access\<close>

text \<open>\<^verbatim>\<open>data.get(key, default)\<close>: only a dictionary has \<^verbatim>\<open>get\<close>.\<close>

fun py_get :: "pyval \<Rightarrow> string \<Rightarrow> pyval \<Rightarrow> py_exception + pyval" where
  "py_get (PDict kvs) key dflt = Inr (case map_of kvs key of None \<Rightarrow> dflt | Some v \<Rightarrow> v)"
| "py_get _ key dflt = Inl AttributeError"

text \<open>\<^verbatim>\<open>key in data\<close> for a string \<open>key\<close>.\<close>

fun py_in :: "string \<Rightarrow> pyval \<Rightarrow> py_exception + bool" where
  "py_in key (PDict kvs) = Inr (key \<in> set (map fst kvs))"
| "py_in key (PList xs) = Inr (PStr key \<in> set xs)"
| "py_in key (PStr s) = Inr (contains_str s key)"
| "py_in key _ = Inl TypeError"

text \<open>\<^verbatim>\<open>data[key]\<close> for a string \<open>key\<close>.\<close>

fun py_getitem :: "pyval \<Rightarrow> string \<Rightarrow> py_exception + pyval" where
  "py_getitem (PDict kvs) key = (case map_of kvs key of None \<Rightarrow> Inl KeyError | Some v \<Rightarrow> Inr v)"
| "py_getitem _ key = Inl TypeError"

section \<open>The world the script runs in\<close>

text \<open>
  A CSV file is kept as the grid of its cell texts: the header line and the data lines.
  Quoting is how the text of a cell is written and read back, and is not modelled.
\<close>

type_synonym csv = "string list \<times> string list list"

text \<open>
  The state that the script changes: the HTTP GET requests issued so far (their URLs, in
  order) and the CSV files on disk (file name to content).
\<close>

record world =
  sent :: "string list"
  files :: "string \<Rightarrow> csv option"

text \<open>The part of a \<^verbatim>\<open>requests.Response\<close> the script reads.\<close>

record response =
  status_code :: int
  json :: "py_exception + pyval"

type_synonym row = "(string \<times> pyval) list"

text \<open>
  What the script takes from outside:
  \<^item> \<open>http_get history url\<close>: the outcome of \<^verbatim>\<open>requests.get(url, ...)\<close> after the requests
    in \<open>history\<close>: a response, or the exception raised (connection error, timeout);
  \<^item> \<open>isoformat_now i\<close>: \<^verbatim>\<open>datetime.now().isoformat()\<close> as read in iteration \<open>i\<close>;
  \<^item> \<open>write_error file\<close> and \<open>read_error file\<close>: the exception the operating system
    raises when the file is written, or read, if it raises one;
  \<^item> \<open>pandas_int text\<close> and \<open>pandas_float text\<close>: the integer, or the finite float, that
    \<^verbatim>\<open>pd.read_csv\<close> reads a cell text as, if it reads it as one;
  \<^item> \<open>float_text x\<close>: the text \<^verbatim>\<open>to_csv\<close> writes for the float nearest to \<open>x\<close>;
  \<^item> \<open>container_text v\<close>: \<^verbatim>\<open>str(v)\<close> for a list or a dictionary;
  \<^item> \<open>python_float text\<close> and \<open>python_int text\<close>: the values of \<^verbatim>\<open>float(text)\<close> and
    \<^verbatim>\<open>int(text)\<close>, \<open>None\<close> where they raise ValueError.
\<close>

record env =
  http_get :: "string list \<Rightarrow> string \<Rightarrow> py_exception + response"
  isoformat_now :: "nat \<Rightarrow> string"
  write_error :: "string \<Rightarrow> py_exception option"
  read_error :: "string \<Rightarrow> py_exception option"
  pandas_int :: "string \<Rightarrow> int option"
  pandas_float :: "string \<Rightarrow> rat option"
  float_text :: "rat \<Rightarrow> string"
  container_text :: "pyval \<Rightarrow> string"
  python_float :: "string \<Rightarrow> rat option"
  python_int :: "string \<Rightarrow> int option"

text \<open>A statement that may raise and may change the world.\<close>

type_synonym 'a prog = "world \<Rightarrow> (py_exception + 'a) \<times> world"

definition ret :: "'a \<Rightarrow> 'a prog" where
  "ret v w = (Inr v, w)"

definition raise :: "py_exception \<Rightarrow> 'a prog" where
  "raise e w = (Inl e, w)"

definition lift :: "py_exception + 'a \<Rightarrow> 'a prog" where
  "lift r w = (r, w)"

definition seq :: "'a prog \<Rightarrow> ('a \<Rightarrow> 'b prog) \<Rightarrow> 'b prog" where
  "seq m f w = (case m w of (Inl e, w') \<Rightarrow> (Inl e, w') | (Inr v, w') \<Rightarrow> f v w')"

text \<open>\<^verbatim>\<open>requests.get(url, ...)\<close>: the request is logged, the outcome comes from outside.\<close>

definition requests_get :: "env \<Rightarrow> string \<Rightarrow> response prog" where
  "requests_get ev url w = (http_get ev (sent w) url, w\<lparr>sent := sent w @ [url]\<rparr>)"

text \<open>\<^verbatim>\<open>try: body  except Exception as e: handler\<close> around a statement.\<close>

definition try_prog :: "'a prog \<Rightarrow> (py_exception \<Rightarrow> 'a prog) \<Rightarrow> 'a prog" where
  "try_prog body handler w =
     (case body w of (Inl e, w') \<Rightarrow> handler e w' | (Inr v, w') \<Rightarrow> (Inr v, w'))"

section \<open>Provider Clients\<close>

definition dimensions_url :: "string \<Rightarrow> string" where
  "dimensions_url doi = ''http://metrics-api.dimensions.ai/doi/'' @ doi"

definition crossref_url :: "string \<Rightarrow> string" where
  "crossref_url doi = ''https://api.crossref.org/works/'' @ doi"

definition openalex_url :: "string \<Rightarrow> string" where
  "openalex_url doi = ''https://api.openalex.org/works/doi:'' @ doi"

definition get_dimensions_citations :: "env \<Rightarrow> string \<Rightarrow> pyval prog" where
  "get_dimensions_citations ev doi =
     try_prog
       (seq (requests_get ev (dimensions_url doi)) (\<lambda>response.
          if status_code response = 200 then
            lift (and_then (json response) (\<lambda>data. py_get data ''times_cited'' (PInt 0)))
          else if status_code response = 404 then ret (PInt 0)
          else ret PNone))
       (\<lambda>e. ret PNone)"

definition get_crossref_citations :: "env \<Rightarrow> string \<Rightarrow> pyval prog" where
  "get_crossref_citations ev doi =
     try_prog
       (seq (requests_get ev (crossref_url doi)) (\<lambda>response.
          if status_code response = 200 then
            lift (and_then (json response) (\<lambda>data.
              and_then (py_in ''message'' data) (\<lambda>has_message.
                if has_message then
                  and_then (py_getitem data ''message'') (\<lambda>message.
                    py_get message ''is-referenced-by-count'' (PInt 0))
                else Inr (PInt 0))))
          else if status_code response = 404 then ret (PInt 0)
          else ret PNone))
       (\<lambda>e. ret PNone)"

definition get_openalex_citations :: "env \<Rightarrow> string \<Rightarrow> pyval prog" where
  "get_openalex_citations ev doi =
     try_prog
       (seq (requests_get ev (openalex_url doi)) (\<lambda>response.
          if status_code response = 200 then
            lift (and_then (json response) (\<lambda>data. py_get data ''cited_by_count'' (PInt 0)))
          else if status_code response = 404 then ret (PInt 0)
          else ret PNone))
       (\<lambda>e. ret PNone)"

section \<open>The CSV codec of pandas\<close>

text \<open>
  Modelled from the documentation of pandas (the library is not part of the
  repository): \<^verbatim>\<open>pd.DataFrame(results).to_csv(file, index=False)\<close> and
  \<^verbatim>\<open>pd.read_csv(file).to_dict('records')\<close>, with the default options that the script
  leaves in place.
\<close>

subsection \<open>Writing\<close>

text \<open>\<^verbatim>\<open>str(n)\<close> for an integer.\<close>

function digits :: "nat \<Rightarrow> string" where
  "digits n =
     (if n < 10 then [''0123456789'' ! n]
      else digits (n div 10) @ [''0123456789'' ! (n mod 10)])"
  by pat_completeness auto
termination
  by (relation "measure (\<lambda>n. n)") auto

declare digits.simps [simp del]

definition decimal :: "int \<Rightarrow> string" where
  "decimal i = (if i < 0 then CHR ''-'' # digits (nat (- i)) else digits (nat i))"

text \<open>
  The columns of the frame built from a list of dictionaries: the keys, in the order in
  which they first appear.
\<close>

definition add_column :: "string list \<Rightarrow> string \<Rightarrow> string list" where
  "add_column names key = (if key \<in> set names then names else names @ [key])"

definition columns_of :: "row list \<Rightarrow> string list" where
  "columns_of results = foldl add_column [] (concat (map (map fst) results))"

text \<open>
  The values of a column are the values under its key, row by row; \<open>None\<close> where a row
  has no such key. A value is missing when the key is absent, or the value is
  \<^verbatim>\<open>None\<close> or \<^verbatim>\<open>nan\<close>.
\<close>

fun is_missing :: "pyval option \<Rightarrow> bool" where
  "is_missing None = True"
| "is_missing (Some PNone) = True"
| "is_missing (Some PNaN) = True"
| "is_missing _ = False"

fun is_int_or_float :: "pyval option \<Rightarrow> bool" where
  "is_int_or_float (Some (PInt n)) = True"
| "is_int_or_float (Some (PFloat x)) = True"
| "is_int_or_float _ = False"

fun is_float :: "pyval option \<Rightarrow> bool" where
  "is_float (Some (PFloat x)) = True"
| "is_float _ = False"

text \<open>
  A column becomes a column of floats when it holds integers or floats and missing
  values only, at least one number, and a float or a missing value. Then its integers
  are floats too. (A column of integers only stays a column of integers; a column
  that holds anything else keeps its values as they are.)
\<close>

definition float_column :: "pyval option list \<Rightarrow> bool" where
  "float_column values =
     (list_all (\<lambda>v. is_missing v \<or> is_int_or_float v) values
      \<and> list_ex is_int_or_float values
      \<and> (list_ex is_missing values \<or> list_ex is_float values))"

text \<open>The text of one cell: a missing value is written as the empty text.\<close>

fun cell_text :: "env \<Rightarrow> bool \<Rightarrow> pyval option \<Rightarrow> string" where
  "cell_text ev as_float None = []"
| "cell_text ev as_float (Some PNone) = []"
| "cell_text ev as_float (Some PNaN) = []"
| "cell_text ev as_float (Some (PInt n)) =
     (if as_float then float_text ev (of_int n) else decimal n)"
| "cell_text ev as_float (Some (PFloat x)) = float_text ev x"
| "cell_text ev as_float (Some (PBool b)) = (if b then ''True'' else ''False'')"
| "cell_text ev as_float (Some (PStr s)) = s"
| "cell_text ev as_float (Some (PList xs)) = container_text ev (PList xs)"
| "cell_text ev as_float (Some (PDict kvs)) = container_text ev (PDict kvs)"

definition column_values :: "row list \<Rightarrow> string \<Rightarrow> pyval option list" where
  "column_values results name = map (\<lambda>result. map_of result name) results"

definition to_csv :: "env \<Rightarrow> row list \<Rightarrow> csv" where
  "to_csv ev results =
     (let names = columns_of results in
      (names,
       map (\<lambda>result.
              map (\<lambda>name. cell_text ev (float_column (column_values results name))
                             (map_of result name)) names)
           results))"

subsection \<open>Reading\<close>

text \<open>The cell texts that are read as a missing value.\<close>

definition na_values :: "string list" where
  "na_values =
     [[], ''#N/A'', ''#N/A N/A'', ''#NA'', ''-1.#IND'', ''-1.#QNAN'', ''-NaN'', ''-nan'',
      ''1.#IND'', ''1.#QNAN'', ''<NA>'', ''N/A'', ''NA'', ''NULL'', ''NaN'', ''None'', ''n/a'',
      ''nan'', ''null'']"

definition is_na :: "string \<Rightarrow> bool" where
  "is_na text = (text \<in> set na_values)"

text \<open>The cell texts that are read as a boolean.\<close>

definition true_values :: "string list" where
  "true_values = [''True'', ''TRUE'', ''true'']"

definition false_values :: "string list" where
  "false_values = [''False'', ''FALSE'', ''false'']"

definition is_bool_text :: "string \<Rightarrow> bool" where
  "is_bool_text text = (text \<in> set true_values \<or> text \<in> set false_values)"

text \<open>
  The type of a column is inferred from all its cells. It is a column of integers when
  no cell is missing and every cell reads as an integer; else a column of floats when
  every cell that is not missing reads as a float; else a column of booleans when every
  cell that is not missing is a boolean text; else its cells stay texts. A missing cell
  is \<^verbatim>\<open>nan\<close> in each case.
\<close>

definition read_column :: "env \<Rightarrow> string list \<Rightarrow> pyval list" where
  "read_column ev cells =
     (let given = filter (\<lambda>c. \<not> is_na c) cells in
      if given = cells \<and> list_all (\<lambda>c. pandas_int ev c \<noteq> None) cells then
        map (\<lambda>c. case pandas_int ev c of Some n \<Rightarrow> PInt n | None \<Rightarrow> PNaN) cells
      else if list_all (\<lambda>c. pandas_float ev c \<noteq> None) given then
        map (\<lambda>c. if is_na c then PNaN
                  else case pandas_float ev c of Some x \<Rightarrow> PFloat x | None \<Rightarrow> PNaN) cells
      else if list_all is_bool_text given then
        map (\<lambda>c. if is_na c then PNaN else PBool (c \<in> set true_values)) cells
      else
        map (\<lambda>c. if is_na c then PNaN else PStr c) cells)"

text \<open>A column without a name is named after its position.\<close>

definition header_name :: "nat \<Rightarrow> string \<Rightarrow> string" where
  "header_name j name = (if name = [] then ''Unnamed: '' @ decimal (int j) else name)"

text \<open>
  The rows read from a file: one dictionary per data line, with the columns in the
  order of the header. A file without header is an error, and so is a data line with
  more cells than the header has; a shorter line is filled up with missing cells. The
  names of the header are taken to be pairwise different, as \<^verbatim>\<open>to_csv\<close> writes them.
\<close>

definition read_csv :: "env \<Rightarrow> csv \<Rightarrow> py_exception + row list" where
  "read_csv ev content =
     (case content of (header, data) \<Rightarrow>
        if header = [] then Inl EmptyDataError
        else if list_ex (\<lambda>line. length header < length line) data then Inl ParserError
        else
          (let n = length header;
               filled = map (\<lambda>line. line @ replicate (n - length line) []) data;
               names = map (\<lambda>j. header_name j (header ! j)) [0..<n];
               columns = map (\<lambda>j. read_column ev (map (\<lambda>line. line ! j) filled)) [0..<n]
           in Inr (map (\<lambda>i. map (\<lambda>j. (names ! j, columns ! j ! i)) [0..<n])
                     [0..<length data])))"

section \<open>Checkpoint Store\<close>

text \<open>Writing a frame to a file: the file is replaced, or the write raises.\<close>

definition write_csv :: "env \<Rightarrow> row list \<Rightarrow> string \<Rightarrow> unit prog" where
  "write_csv ev results file w =
     (case write_error ev file of
        Some e \<Rightarrow> (Inl e, w)
      | None \<Rightarrow> (Inr (), w\<lparr>files := (files w)(file \<mapsto> to_csv ev results)\<rparr>))"

definition save_checkpoint :: "env \<Rightarrow> row list \<Rightarrow> string \<Rightarrow> unit prog" where
  "save_checkpoint ev results checkpoint_file =
     try_prog (write_csv ev results checkpoint_file) (\<lambda>e. ret ())"

definition load_checkpoint :: "env \<Rightarrow> string \<Rightarrow> row list prog" where
  "load_checkpoint ev checkpoint_file =
     try_prog
       (\<lambda>w. case files w checkpoint_file of
               Some content \<Rightarrow>
                 (case read_error ev checkpoint_file of
                    Some e \<Rightarrow> raise e w
                  | None \<Rightarrow> lift (read_csv ev content) w)
             | None \<Rightarrow> ret [] w)
       (\<lambda>e. ret [])"

section \<open>Analysis Orchestrator\<close>

definition checkpoint_name :: "string \<Rightarrow> string" where
  "checkpoint_name timestamp = ''citation_analysis_checkpoint_'' @ timestamp @ ''.csv''"

text \<open>A set can hold only hashable values: lists and dictionaries are not.\<close>

fun hashable :: "pyval \<Rightarrow> bool" where
  "hashable (PList xs) = False"
| "hashable (PDict kvs) = False"
| "hashable _ = True"

text \<open>Line 158: \<^verbatim>\<open>{result['doi'] for result in results}\<close>, as the list of its members.\<close>

fun processed_of :: "row list \<Rightarrow> py_exception + pyval list" where
  "processed_of [] = Inr []"
| "processed_of (result # rest) =
     (case map_of result ''doi'' of
        None \<Rightarrow> Inl KeyError
      | Some v \<Rightarrow> if hashable v then and_then (processed_of rest) (\<lambda>vs. Inr (v # vs))
                  else Inl TypeError)"

text \<open>Line 159: a string is in the set when the set holds that string.\<close>

definition remaining_of :: "pyval list \<Rightarrow> string list \<Rightarrow> string list" where
  "remaining_of processed_dois doi_list =
     filter (\<lambda>doi. PStr doi \<notin> set processed_dois) doi_list"

text \<open>Lines 156 to 163: the rows to start from and the identifiers still to process.\<close>

definition resume_state :: "env \<Rightarrow> string \<Rightarrow> string list \<Rightarrow> bool \<Rightarrow> (row list \<times> string list) prog" where
  "resume_state ev checkpoint_file doi_list resume_from_checkpoint =
     (if resume_from_checkpoint then
        seq (load_checkpoint ev checkpoint_file) (\<lambda>results.
        seq (lift (processed_of results)) (\<lambda>processed_dois.
        ret (results, remaining_of processed_dois doi_list)))
      else ret ([], doi_list))"

text \<open>
  \<^verbatim>\<open>time.sleep(delay)\<close> changes nothing here, and raises on a negative delay. The
  delay is an integer or a finite float, given by its value.
\<close>

definition sleep :: "rat \<Rightarrow> unit prog" where
  "sleep delay = (if delay < 0 then raise ValueError else ret ())"

text \<open>
  Lines 171 to 202: the body of the loop for the \<open>i\<close>-th remaining identifier, of
  \<open>n\<close>; it returns the extended \<open>results\<close>.
\<close>

definition process_doi ::
  "env \<Rightarrow> string \<Rightarrow> rat \<Rightarrow> int \<Rightarrow> nat \<Rightarrow> nat \<Rightarrow> string \<Rightarrow> row list \<Rightarrow> row list prog" where
  "process_doi ev checkpoint_file delay checkpoint_interval n i doi results =
     seq (get_crossref_citations ev doi) (\<lambda>crossref_count.
     seq (get_openalex_citations ev doi) (\<lambda>openalex_count.
     seq (get_dimensions_citations ev doi) (\<lambda>dimensions_count.
     seq (lift (max_citations crossref_count openalex_count dimensions_count)) (\<lambda>mx.
     let result = [(''doi'', PStr doi),
                   (''crossref_citations'', crossref_count),
                   (''openalex_citations'', openalex_count),
                   (''dimensions_citations'', dimensions_count),
                   (''max_citations'', mx),
                   (''processed_at'', PStr (isoformat_now ev i))];
         results' = results @ [result]
     in
     seq (if checkpoint_interval = 0 then raise ZeroDivisionError
          else if int i mod checkpoint_interval = 0
               then save_checkpoint ev results' checkpoint_file
               else ret ()) (\<lambda>_.
     seq (if i < n then sleep delay else ret ()) (\<lambda>_.
     ret results'))))))"

text \<open>Line 170: \<^verbatim>\<open>for i, doi in enumerate(remaining_dois, 1)\<close>.\<close>

fun process_all ::
  "env \<Rightarrow> string \<Rightarrow> rat \<Rightarrow> int \<Rightarrow> nat \<Rightarrow> nat \<Rightarrow> string list \<Rightarrow> row list \<Rightarrow> row list prog" where
  "process_all ev checkpoint_file delay checkpoint_interval n i [] results = ret results"
| "process_all ev checkpoint_file delay checkpoint_interval n i (doi # rest) results =
     seq (process_doi ev checkpoint_file delay checkpoint_interval n i doi results)
       (\<lambda>results'. process_all ev checkpoint_file delay checkpoint_interval n (Suc i) rest results')"

text \<open>
  \<open>timestamp\<close> is \<^verbatim>\<open>datetime.now().strftime('%Y%m%d_%H%M%S')\<close> as read at line 152. The
  result is the list of rows that \<^verbatim>\<open>pd.DataFrame(results)\<close> is built from.
\<close>

definition analyze_citations ::
  "env \<Rightarrow> string \<Rightarrow> string list \<Rightarrow> rat \<Rightarrow> int \<Rightarrow> bool \<Rightarrow> row list prog" where
  "analyze_citations ev timestamp doi_list delay checkpoint_interval resume_from_checkpoint =
     (let checkpoint_file = checkpoint_name timestamp in
      seq (resume_state ev checkpoint_file doi_list resume_from_checkpoint) (\<lambda>(results, remaining_dois).
      seq (process_all ev checkpoint_file delay checkpoint_interval
             (length remaining_dois) 1 remaining_dois results) (\<lambda>results'.
      seq (save_checkpoint ev results' checkpoint_file) (\<lambda>_.
      ret results'))))"

section \<open>The input stage of main\<close>

text \<open>Line 235.\<close>

definition manual_dois :: "string \<Rightarrow> string list" where
  "manual_dois doi_input =
     map strip (filter (\<lambda>doi. strip doi \<noteq> []) (split doi_input (CHR '','')))"

text \<open>
  What \<^verbatim>\<open>main\<close> prints in its input stage. The two truncation warnings carry the
  number of identifiers found in the file, or entered.
\<close>

datatype message =
    No_DOIs_loaded | Truncating_found nat | Truncating_entered nat
  | Invalid_choice | No_valid_DOIs

text \<open>Lines 244 to 246.\<close>

definition check_not_empty :: "message list \<Rightarrow> string list \<Rightarrow> message list \<times> string list option" where
  "check_not_empty printed dois =
     (if dois = [] then (printed @ [No_valid_DOIs], None) else (printed, Some dois))"

text \<open>
  Lines 217 to 246: from the operator's two answers to what is printed and to the list
  that line 272 hands to \<^verbatim>\<open>analyze_citations\<close>, or \<open>None\<close> where \<^verbatim>\<open>main\<close> exits.
\<close>

definition main_dois :: "input_disk \<Rightarrow> string \<Rightarrow> string \<Rightarrow> message list \<times> string list option" where
  "main_dois disk method_answer entry_answer =
     (let input_method = strip method_answer in
      if input_method = ''1'' then
        (let dois = load_dois_from_file disk (strip entry_answer) in
         if dois = [] then ([No_DOIs_loaded], None)
         else if length dois > 6000
           then check_not_empty [Truncating_found (length dois)] (take 6000 dois)
           else check_not_empty [] dois)
      else if input_method = ''2'' then
        (let dois = manual_dois (strip entry_answer) in
         if length dois > 6000
           then check_not_empty [Truncating_entered (length dois)] (take 6000 dois)
           else check_not_empty [] dois)
      else ([Invalid_choice], None))"

section \<open>The rest of main\<close>

text \<open>
  The operator's answers to the five prompts of \<^verbatim>\<open>main\<close>, as typed: the input method, the
  file path or the list of identifiers, the delay, the checkpoint interval and the
  confirmation.
\<close>

record answers =
  method_answer :: string
  entry_answer :: string
  delay_answer :: string
  checkpoint_answer :: string
  confirm_answer :: string

text \<open>Lines 251 and 252: \<^verbatim>\<open>float(delay_input) if delay_input else 2.0\<close>.\<close>

definition read_delay :: "env \<Rightarrow> string \<Rightarrow> py_exception + rat" where
  "read_delay ev answer =
     (let delay_input = strip answer in
      if delay_input = [] then Inr 2
      else (case python_float ev delay_input of None \<Rightarrow> Inl ValueError | Some d \<Rightarrow> Inr d))"

text \<open>Lines 255 and 256: \<^verbatim>\<open>int(checkpoint_input) if checkpoint_input else 100\<close>.\<close>

definition read_checkpoint_interval :: "env \<Rightarrow> string \<Rightarrow> py_exception + int" where
  "read_checkpoint_interval ev answer =
     (let checkpoint_input = strip answer in
      if checkpoint_input = [] then Inr 100
      else (case python_int ev checkpoint_input of None \<Rightarrow> Inl ValueError | Some n \<Rightarrow> Inr n))"

text \<open>
  Lines 261 and 263: the answer, stripped and in lower case, is \<^verbatim>\<open>y\<close>; the only
  strings whose lower case is \<^verbatim>\<open>y\<close> are \<^verbatim>\<open>y\<close> and \<^verbatim>\<open>Y\<close>.
\<close>

definition confirmed :: "string \<Rightarrow> bool" where
  "confirmed answer = (strip answer = ''y'' \<or> strip answer = ''Y'')"

text \<open>
  Lines 288 to 290: \<^verbatim>\<open>citation_df[key].mean()\<close> raises KeyError when the frame has no
  such column, and TypeError when the column holds a value that is neither missing nor
  a number. What is printed is not modelled.
\<close>

fun has_mean :: "pyval option \<Rightarrow> bool" where
  "has_mean None = True"
| "has_mean (Some PNone) = True"
| "has_mean (Some v) = is_number v"

definition column_mean :: "row list \<Rightarrow> string \<Rightarrow> py_exception + unit" where
  "column_mean results key =
     (if key \<notin> set (columns_of results) then Inl KeyError
      else if list_all has_mean (column_values results key) then Inr ()
      else Inl TypeError)"

definition final_name :: "string \<Rightarrow> string" where
  "final_name timestamp = ''citation_analysis_final_'' @ timestamp @ ''.csv''"

text \<open>
  Lines 274 to 298: the results are displayed, the three means are computed and the
  frame is written to the final output file, named after the time \<open>final_timestamp\<close>
  read at line 293.
\<close>

definition display_and_export :: "env \<Rightarrow> row list \<Rightarrow> string \<Rightarrow> unit prog" where
  "display_and_export ev results final_timestamp =
     seq (lift (column_mean results ''crossref_citations'')) (\<lambda>_.
     seq (lift (column_mean results ''openalex_citations'')) (\<lambda>_.
     seq (lift (column_mean results ''dimensions_citations'')) (\<lambda>_.
     write_csv ev results (final_name final_timestamp))))"

text \<open>How a call of \<^verbatim>\<open>main\<close> ends.\<close>

datatype outcome =
    Exited | Cancelled | Completed "row list" | Failed py_exception

text \<open>
  \<^verbatim>\<open>main\<close>, with what its input stage printed. \<open>timestamp\<close> is the time read at line 152
  by the call of \<^verbatim>\<open>analyze_citations\<close>. A ValueError of \<^verbatim>\<open>float\<close> or \<^verbatim>\<open>int\<close> at lines
  252 and 256 is not caught. An interrupt by the operator is not modelled.
\<close>

definition main ::
  "env \<Rightarrow> input_disk \<Rightarrow> answers \<Rightarrow> string \<Rightarrow> string \<Rightarrow> (message list \<times> outcome) prog" where
  "main ev disk ans timestamp final_timestamp =
     (case main_dois disk (method_answer ans) (entry_answer ans) of
        (printed, None) \<Rightarrow> ret (printed, Exited)
      | (printed, Some dois) \<Rightarrow>
          seq (lift (read_delay ev (delay_answer ans))) (\<lambda>delay.
          seq (lift (read_checkpoint_interval ev (checkpoint_answer ans))) (\<lambda>checkpoint_interval.
          if \<not> confirmed (confirm_answer ans) then ret (printed, Cancelled)
          else
            try_prog
              (seq (analyze_citations ev timestamp dois delay checkpoint_interval True)
                 (\<lambda>results.
               seq (display_and_export ev results final_timestamp) (\<lambda>_.
               ret (printed, Completed results))))
              (\<lambda>e. ret (printed, Failed e)))))"

section \<open>Notions used in the statements\<close>

text \<open>A provider result as the specification has it: absent, or a non-negative integer.\<close>

fun is_count :: "pyval \<Rightarrow> bool" where
  "is_count PNone = True"
| "is_count (PInt n) = (0 \<le> n)"
| "is_count _ = False"

text \<open>The present (non-absent) integer values of a list of provider results.\<close>

fun present :: "pyval list \<Rightarrow> int list" where
  "present [] = []"
| "present (PInt n # vs) = n # present vs"
| "present (v # vs) = present vs"

text \<open>
  A failed call: the request raised (network error, timeout), or the status is neither
  200 nor 404, or the status is 200 and the body does not parse as JSON.
\<close>

definition failed_call :: "py_exception + response \<Rightarrow> bool" where
  "failed_call outcome =
     (case outcome of
        Inl e \<Rightarrow> True
      | Inr r \<Rightarrow> (status_code r \<noteq> 200 \<and> status_code r \<noteq> 404)
               \<or> (status_code r = 200 \<and> isl (json r)))"

text \<open>The three requests made for one identifier, in the order they are made.\<close>

definition provider_urls :: "string \<Rightarrow> string list" where
  "provider_urls doi = [crossref_url doi, openalex_url doi, dimensions_url doi]"

text \<open>The identifier of a row: the value under the key \<^verbatim>\<open>'doi'\<close>, if there is one.\<close>

definition doi_of :: "row \<Rightarrow> pyval option" where
  "doi_of result = map_of result ''doi''"

text \<open>
  The input identifiers that are not the identifier of any row of the loaded
  checkpoint, in input order.
\<close>

definition expected_remaining :: "row list \<Rightarrow> string list \<Rightarrow> string list" where
  "expected_remaining rows doi_list =
     filter (\<lambda>doi. Some (PStr doi) \<notin> set (map doi_of rows)) doi_list"

text \<open>What the operator types for a list of identifiers: the identifiers, comma-separated.\<close>

fun join :: "string list \<Rightarrow> string" where
  "join [] = []"
| "join [d] = d"
| "join (d # d' # ds) = d @ CHR '','' # join (d' # ds)"

text \<open>
  An identifier as it can be typed in a comma-separated list and come back unchanged:
  not empty, without a comma, without white space at either end.
\<close>

definition manual_identifier :: "string \<Rightarrow> bool" where
  "manual_identifier d =
     (d \<noteq> [] \<and> CHR '','' \<notin> set d \<and> \<not> is_space (hd d) \<and> \<not> is_space (last d))"

text \<open>
  One entry of a list typed by hand: white space, then an identifier or nothing, then
  white space. Its text is what is typed between two commas.
\<close>

type_synonym entry = "string \<times> string \<times> string"

definition entry_text :: "entry \<Rightarrow> string" where
  "entry_text e = (case e of (l, d, r) \<Rightarrow> l @ d @ r)"

definition entry_identifier :: "entry \<Rightarrow> string" where
  "entry_identifier e = (case e of (l, d, r) \<Rightarrow> d)"

definition entry_ok :: "entry \<Rightarrow> bool" where
  "entry_ok e =
     (case e of (l, d, r) \<Rightarrow>
        list_all is_space l \<and> list_all is_space r \<and> (d = [] \<or> manual_identifier d))"

text \<open>The text typed for a list of entries, and the identifiers that were entered.\<close>

definition typed :: "entry list \<Rightarrow> string" where
  "typed entries = join (map entry_text entries)"

definition entered :: "entry list \<Rightarrow> string list" where
  "entered entries = filter (\<lambda>d. d \<noteq> []) (map entry_identifier entries)"

text \<open>A result set in which every row has the same keys, in the same order.\<close>

definition same_keys :: "string list \<Rightarrow> row list \<Rightarrow> bool" where
  "same_keys keys results = list_all (\<lambda>result. map fst result = keys) results"






subsection \<open>Example environments\<close>

text \<open>A world with no request sent and no file.\<close>

definition fresh_world :: world where
  "fresh_world = \<lparr>sent = [], files = (\<lambda>name. None)\<rparr>"

text \<open>A reader of numerals: digits, with a minus sign before them if any.\<close>

definition digit_value :: "char \<Rightarrow> nat option" where
  "digit_value c =
     map_of [(CHR ''0'', 0), (CHR ''1'', 1), (CHR ''2'', 2), (CHR ''3'', 3), (CHR ''4'', 4),
             (CHR ''5'', 5), (CHR ''6'', 6), (CHR ''7'', 7), (CHR ''8'', 8), (CHR ''9'', 9)] c"

fun read_digits :: "nat \<Rightarrow> string \<Rightarrow> nat option" where
  "read_digits acc [] = Some acc"
| "read_digits acc (c # cs) =
     (case digit_value c of None \<Rightarrow> None | Some d \<Rightarrow> read_digits (10 * acc + d) cs)"

fun read_int :: "string \<Rightarrow> int option" where
  "read_int [] = None"
| "read_int (c # cs) =
     (if c = CHR ''-'' then (if cs = [] then None else map_option (\<lambda>n. - int n) (read_digits 0 cs))
      else map_option int (read_digits 0 (c # cs)))"

text \<open>A reader of decimal fractions: a numeral, or a numeral, a point and digits.\<close>

definition read_float :: "string \<Rightarrow> rat option" where
  "read_float text =
     (case split text (CHR ''.'') of
        [whole] \<Rightarrow> map_option of_int (read_int whole)
      | [whole, fraction] \<Rightarrow>
          (case (read_int whole, read_digits 0 fraction) of
             (Some i, Some f) \<Rightarrow>
               Some (of_int i
                     + (if hd whole = CHR ''-'' then - 1 else 1) * of_nat f / 10 ^ length fraction)
           | _ \<Rightarrow> None)
      | _ \<Rightarrow> None)"

text \<open>
  Every request is answered with the given status and a body that is not JSON; files
  are written and read without error; numbers are read by \<open>read_int\<close> and
  \<open>read_float\<close>, and a float is written as the numeral of its integer part followed
  by \<open>.0\<close>.
\<close>

definition env_status :: "int \<Rightarrow> env" where
  "env_status code =
     \<lparr>http_get = (\<lambda>history url. Inr \<lparr>status_code = code, json = Inl JSONDecodeError\<rparr>),
      isoformat_now = (\<lambda>i. ''2024-01-01T12:00:00''),
      write_error = (\<lambda>file. None),
      read_error = (\<lambda>file. None),
      pandas_int = read_int,
      pandas_float = read_float,
      float_text = (\<lambda>x. decimal \<lfloor>x\<rfloor> @ ''.0''),
      container_text = (\<lambda>v. ''[]''),
      python_float = read_float,
      python_int = read_int\<rparr>"

text \<open>Every request times out.\<close>

definition env_timeout :: env where
  "env_timeout = (env_status 200)\<lparr>http_get := (\<lambda>history url. Inl Timeout)\<rparr>"

text \<open>
  A world whose only file is the checkpoint of the run started at \<open>timestamp\<close>, with one
  row, for the identifier 10.1/b.
\<close>

definition world_with_checkpoint :: "string \<Rightarrow> world" where
  "world_with_checkpoint timestamp =
     \<lparr>sent = [],
      files = (\<lambda>name. if name = checkpoint_name timestamp
                       then Some ([''doi''], [[''10.1/b'']]) else None)\<rparr>"

text \<open>A disk where every text file has the given lines and no table can be read.\<close>

definition disk_of_lines :: "string list \<Rightarrow> input_disk" where
  "disk_of_lines ls = \<lparr>open_lines = (\<lambda>path. Inr ls), read_table = (\<lambda>path. Inl OSError)\<rparr>"

text \<open>
  A list of \<open>n\<close> identifiers that are pairwise different: 10.1/ followed by 0, 1, 2 and
  so on letters x.
\<close>

definition many_dois :: "nat \<Rightarrow> string list" where
  "many_dois n = map (\<lambda>i. ''10.1/'' @ replicate i (CHR ''x'')) [0..<n]"

text \<open>The row recorded for an identifier when every request is answered 404.\<close>

definition row_404 :: "string \<Rightarrow> row" where
  "row_404 doi =
     [(''doi'', PStr doi), (''crossref_citations'', PInt 0), (''openalex_citations'', PInt 0),
      (''dimensions_citations'', PInt 0), (''max_citations'', PInt 0),
      (''processed_at'', PStr ''2024-01-01T12:00:00'')]"

text \<open>
  An operator who gives the input method and the entry, takes the default delay and
  checkpoint interval, and confirms.
\<close>

definition answers_with_defaults :: "string \<Rightarrow> string \<Rightarrow> answers" where
  "answers_with_defaults method entry =
     \<lparr>method_answer = method, entry_answer = entry, delay_answer = [],
      checkpoint_answer = [], confirm_answer = ''y''\<rparr>"

section \<open>Properties\<close>

subsection \<open>The maximum of the provider results\<close>

lemma is_count_cases: "is_count v \<Longrightarrow> v = PNone \<or> (\<exists>n. v = PInt n \<and> 0 \<le> n)"
  by (cases v) auto

text \<open>
  Claim C3. For provider results that are each absent or a non-negative integer, line
  191 computes the maximum of the present values, and 0 when none is present or all
  present values are zero. In particular (5, absent, 3) gives 5, three absent values
  give 0 and three zeros give 0. The computation never raises on such results.
\<close>

theorem max_citations_is_max_of_present:
  "(is_count c \<and> is_count p \<and> is_count d \<longrightarrow>
      max_citations c p d =
        Inr (PInt (if present [c, p, d] = [] then 0 else Max (set (present [c, p, d]))))
      \<and> ((\<forall>n \<in> set (present [c, p, d]). n = 0) \<longrightarrow> max_citations c p d = Inr (PInt 0)))
   \<and> max_citations (PInt 5) PNone (PInt 3) = Inr (PInt 5)
   \<and> max_citations PNone PNone PNone = Inr (PInt 0)
   \<and> max_citations (PInt 0) (PInt 0) (PInt 0) = Inr (PInt 0)"
proof -
  have general: "max_citations c p d =
        Inr (PInt (if present [c, p, d] = [] then 0 else Max (set (present [c, p, d]))))
      \<and> ((\<forall>n \<in> set (present [c, p, d]). n = 0) \<longrightarrow> max_citations c p d = Inr (PInt 0))"
    if a: "is_count c \<and> is_count p \<and> is_count d"
  proof -
    from a have c: "c = PNone \<or> (\<exists>n. c = PInt n \<and> 0 \<le> n)"
      and p: "p = PNone \<or> (\<exists>n. p = PInt n \<and> 0 \<le> n)"
      and d: "d = PNone \<or> (\<exists>n. d = PInt n \<and> 0 \<le> n)"
      by (simp_all add: is_count_cases)
    from c p d have m: "max_citations c p d =
        Inr (PInt (if present [c, p, d] = [] then 0 else Max (set (present [c, p, d]))))"
      by (auto simp: max_citations_def py_max_def and_then_def)
    from c p d show ?thesis
      unfolding m by auto
  qed
  have examples: "max_citations (PInt 5) PNone (PInt 3) = Inr (PInt 5)
      \<and> max_citations PNone PNone PNone = Inr (PInt 0)
      \<and> max_citations (PInt 0) (PInt 0) (PInt 0) = Inr (PInt 0)"
    by (simp add: max_citations_def py_max_def and_then_def)
  from general examples show ?thesis
    by blast
qed

theorem max_citations_is_max_of_present_witness:
  "is_count (PInt 2) \<and> is_count PNone \<and> is_count (PInt 7)
   \<and> max_citations (PInt 2) PNone (PInt 7) = Inr (PInt 7)"
  using max_citations_is_max_of_present [of "PInt 2" PNone "PInt 7"] by simp

subsection \<open>The provider clients\<close>

text \<open>
  Claim C4. Each of the three provider clients returns 0, not the absent value
  \<^verbatim>\<open>None\<close>, when the response to its request has status 404.
\<close>

theorem not_found_is_zero:
  "(http_get ev (sent w) (crossref_url doi) = Inr r \<and> status_code r = 404
      \<longrightarrow> fst (get_crossref_citations ev doi w) = Inr (PInt 0))
   \<and> (http_get ev (sent w) (openalex_url doi) = Inr r \<and> status_code r = 404
      \<longrightarrow> fst (get_openalex_citations ev doi w) = Inr (PInt 0))
   \<and> (http_get ev (sent w) (dimensions_url doi) = Inr r \<and> status_code r = 404
      \<longrightarrow> fst (get_dimensions_citations ev doi w) = Inr (PInt 0))"
  by (simp add: get_crossref_citations_def get_openalex_citations_def
      get_dimensions_citations_def try_prog_def seq_def requests_get_def ret_def)

theorem not_found_is_zero_witness:
  "http_get (env_status 404) (sent fresh_world) (crossref_url ''10.1002/x'')
     = Inr \<lparr>status_code = 404, json = Inl JSONDecodeError\<rparr>
   \<and> http_get (env_status 404) (sent fresh_world) (openalex_url ''10.1002/x'')
     = Inr \<lparr>status_code = 404, json = Inl JSONDecodeError\<rparr>
   \<and> http_get (env_status 404) (sent fresh_world) (dimensions_url ''10.1002/x'')
     = Inr \<lparr>status_code = 404, json = Inl JSONDecodeError\<rparr>
   \<and> fst (get_crossref_citations (env_status 404) ''10.1002/x'' fresh_world) = Inr (PInt 0)
   \<and> fst (get_openalex_citations (env_status 404) ''10.1002/x'' fresh_world) = Inr (PInt 0)
   \<and> fst (get_dimensions_citations (env_status 404) ''10.1002/x'' fresh_world) = Inr (PInt 0)"
  using not_found_is_zero [of "env_status 404" fresh_world "''10.1002/x''"
      "\<lparr>status_code = 404, json = Inl JSONDecodeError\<rparr>"]
  by (simp add: env_status_def)

text \<open>
  Claim C5. Each of the three provider clients returns the absent value \<^verbatim>\<open>None\<close>
  (which is not 0) when its call fails: the request raises (network error, timeout),
  the status is neither 200 nor 404, or the body of a 200 response does not parse. No
  client ever raises, whatever the outcome of the request.
\<close>

theorem failed_call_is_absent:
  "(failed_call (http_get ev (sent w) (crossref_url doi))
      \<longrightarrow> fst (get_crossref_citations ev doi w) = Inr PNone)
   \<and> (failed_call (http_get ev (sent w) (openalex_url doi))
      \<longrightarrow> fst (get_openalex_citations ev doi w) = Inr PNone)
   \<and> (failed_call (http_get ev (sent w) (dimensions_url doi))
      \<longrightarrow> fst (get_dimensions_citations ev doi w) = Inr PNone)
   \<and> (\<exists>v. fst (get_crossref_citations ev doi w) = Inr v)
   \<and> (\<exists>v. fst (get_openalex_citations ev doi w) = Inr v)
   \<and> (\<exists>v. fst (get_dimensions_citations ev doi w) = Inr v)
   \<and> PNone \<noteq> PInt 0"
  by (auto simp: failed_call_def get_crossref_citations_def get_openalex_citations_def
      get_dimensions_citations_def try_prog_def seq_def requests_get_def ret_def lift_def
      and_then_def isl_def split: sum.splits prod.splits)

theorem failed_call_is_absent_witness:
  "failed_call (http_get env_timeout (sent fresh_world) (crossref_url ''10.1002/x''))
   \<and> failed_call (http_get (env_status 500) (sent fresh_world) (openalex_url ''10.1002/x''))
   \<and> failed_call (http_get (env_status 200) (sent fresh_world) (dimensions_url ''10.1002/x''))
   \<and> fst (get_crossref_citations env_timeout ''10.1002/x'' fresh_world) = Inr PNone
   \<and> fst (get_openalex_citations (env_status 500) ''10.1002/x'' fresh_world) = Inr PNone
   \<and> fst (get_dimensions_citations (env_status 200) ''10.1002/x'' fresh_world) = Inr PNone"
  using failed_call_is_absent [of env_timeout fresh_world "''10.1002/x''"]
    failed_call_is_absent [of "env_status 500" fresh_world "''10.1002/x''"]
    failed_call_is_absent [of "env_status 200" fresh_world "''10.1002/x''"]
  by (simp add: failed_call_def env_timeout_def env_status_def)

subsection \<open>Effects of the clients, the checkpoint store and the loop\<close>

lemmas codec_defs =
  read_csv_def read_column_def header_name_def is_na_def na_values_def is_bool_text_def
  true_values_def false_values_def digit_value_def read_float_def

lemmas run_defs =
  analyze_citations_def resume_state_def load_checkpoint_def save_checkpoint_def write_csv_def
  process_doi_def get_crossref_citations_def get_openalex_citations_def
  get_dimensions_citations_def requests_get_def try_prog_def seq_def ret_def lift_def
  raise_def sleep_def max_citations_def remaining_of_def and_then_def Let_def
  checkpoint_name_def crossref_url_def openalex_url_def dimensions_url_def

lemma crossref_effect:
  "\<exists>v w'. get_crossref_citations ev doi w = (Inr v, w') \<and> sent w' = sent w @ [crossref_url doi]
     \<and> files w' = files w"
  by (auto simp: get_crossref_citations_def try_prog_def seq_def requests_get_def ret_def
      lift_def split: sum.splits prod.splits)

lemma openalex_effect:
  "\<exists>v w'. get_openalex_citations ev doi w = (Inr v, w') \<and> sent w' = sent w @ [openalex_url doi]
     \<and> files w' = files w"
  by (auto simp: get_openalex_citations_def try_prog_def seq_def requests_get_def ret_def
      lift_def split: sum.splits prod.splits)

lemma dimensions_effect:
  "\<exists>v w'. get_dimensions_citations ev doi w = (Inr v, w') \<and> sent w' = sent w @ [dimensions_url doi]
     \<and> files w' = files w"
  by (auto simp: get_dimensions_citations_def try_prog_def seq_def requests_get_def ret_def
      lift_def split: sum.splits prod.splits)

lemma save_checkpoint_effect:
  "\<exists>w'. save_checkpoint ev results file w = (Inr (), w') \<and> sent w' = sent w
     \<and> (\<forall>name. name \<noteq> file \<longrightarrow> files w' name = files w name)"
  by (auto simp: save_checkpoint_def try_prog_def write_csv_def ret_def
      split: option.splits)

lemma load_checkpoint_effect:
  "\<exists>rows. load_checkpoint ev file w = (Inr rows, w)"
  by (auto simp: load_checkpoint_def try_prog_def ret_def lift_def raise_def
      split: sum.splits prod.splits option.splits)

lemma load_checkpoint_absent:
  "files w file = None \<Longrightarrow> load_checkpoint ev file w = (Inr [], w)"
  by (simp add: load_checkpoint_def try_prog_def ret_def)

lemma process_doi_effect:
  "\<exists>r w'. process_doi ev file delay ci n i doi results w = (r, w')
     \<and> sent w' = sent w @ provider_urls doi
     \<and> (\<forall>name. name \<noteq> file \<longrightarrow> files w' name = files w name)
     \<and> (\<forall>rs. r = Inr rs \<longrightarrow> (\<exists>result. rs = results @ [result] \<and> doi_of result = Some (PStr doi)))"
proof -
  obtain c w1 where c: "get_crossref_citations ev doi w = (Inr c, w1)"
    "sent w1 = sent w @ [crossref_url doi]" "files w1 = files w"
    using crossref_effect by blast
  obtain p w2 where p: "get_openalex_citations ev doi w1 = (Inr p, w2)"
    "sent w2 = sent w1 @ [openalex_url doi]" "files w2 = files w1"
    using openalex_effect by blast
  obtain d w3 where d: "get_dimensions_citations ev doi w2 = (Inr d, w3)"
    "sent w3 = sent w2 @ [dimensions_url doi]" "files w3 = files w2"
    using dimensions_effect by blast
  have s3: "sent w3 = sent w @ provider_urls doi" "files w3 = files w"
    using c p d by (simp_all add: provider_urls_def)
  show ?thesis
  proof (cases "max_citations c p d")
    case (Inl e)
    then show ?thesis
      using s3 by (simp add: process_doi_def seq_def c p d lift_def)
  next
    case (Inr mx)
    let ?rs = "results @ [[(''doi'', PStr doi), (''crossref_citations'', c),
      (''openalex_citations'', p), (''dimensions_citations'', d),
      (''max_citations'', mx), (''processed_at'', PStr (isoformat_now ev i))]]"
    obtain w4 where w4: "save_checkpoint ev ?rs file w3 = (Inr (), w4)" "sent w4 = sent w3"
      "\<forall>name. name \<noteq> file \<longrightarrow> files w4 name = files w3 name"
      using save_checkpoint_effect by blast
    show ?thesis
      using s3 w4 Inr
      by (simp add: process_doi_def seq_def c p d lift_def Let_def raise_def ret_def sleep_def
          doi_of_def)
  qed
qed

lemma process_all_effect:
  "\<exists>r w' k. process_all ev file delay ci n i dois results w = (r, w')
     \<and> k \<le> length dois
     \<and> sent w' = sent w @ concat (map provider_urls (take k dois))
     \<and> (\<forall>name. name \<noteq> file \<longrightarrow> files w' name = files w name)
     \<and> (\<forall>rs. r = Inr rs \<longrightarrow> k = length dois
           \<and> map doi_of rs = map doi_of results @ map (\<lambda>doi. Some (PStr doi)) dois)"
proof (induction dois arbitrary: i results w)
  case Nil
  show ?case by (simp add: ret_def)
next
  case (Cons doi rest)
  obtain r1 w1 where 1: "process_doi ev file delay ci n i doi results w = (r1, w1)"
    "sent w1 = sent w @ provider_urls doi"
    "\<forall>name. name \<noteq> file \<longrightarrow> files w1 name = files w name"
    "\<forall>rs. r1 = Inr rs \<longrightarrow> (\<exists>result. rs = results @ [result] \<and> doi_of result = Some (PStr doi))"
    using process_doi_effect by blast
  show ?case
  proof (cases r1)
    case (Inl e)
    with 1 show ?thesis
      by (intro exI [of _ "Inl e"] exI [of _ w1] exI [of _ "Suc 0"]) (simp add: seq_def)
  next
    case (Inr rs1)
    with 1 obtain result where rs1: "rs1 = results @ [result]" "doi_of result = Some (PStr doi)"
      by blast
    from Cons.IH [of "Suc i" rs1 w1] obtain r2 w2 k where 2:
      "process_all ev file delay ci n (Suc i) rest rs1 w1 = (r2, w2)"
      "k \<le> length rest"
      "sent w2 = sent w1 @ concat (map provider_urls (take k rest))"
      "\<forall>name. name \<noteq> file \<longrightarrow> files w2 name = files w1 name"
      "\<forall>rs. r2 = Inr rs \<longrightarrow> k = length rest
           \<and> map doi_of rs = map doi_of rs1 @ map (\<lambda>doi. Some (PStr doi)) rest"
      by blast
    show ?thesis
      using 1 2 Inr rs1
      by (intro exI [of _ r2] exI [of _ w2] exI [of _ "Suc k"]) (simp add: seq_def)
  qed
qed

lemma processed_of_values:
  "processed_of rows = Inr ps \<Longrightarrow> map Some ps = map doi_of rows"
  by (induction rows arbitrary: ps)
    (auto simp: doi_of_def and_then_def split: option.splits if_splits sum.splits)

lemma remaining_of_expected:
  assumes "processed_of rows = Inr ps"
  shows "remaining_of ps doi_list = expected_remaining rows doi_list"
proof -
  have "set (map doi_of rows) = Some ` set ps"
    using processed_of_values [OF assms] by (metis set_map)
  then show ?thesis
    by (auto simp: remaining_of_def expected_remaining_def intro: filter_cong)
qed

lemma resume_state_effect:
  assumes "load_checkpoint ev file w = (Inr rows, w)"
  shows "resume_state ev file doi_list True w =
           (case processed_of rows of
              Inl e \<Rightarrow> (Inl e, w)
            | Inr ps \<Rightarrow> (Inr (rows, expected_remaining rows doi_list), w))"
  using assms
  by (simp add: resume_state_def seq_def lift_def ret_def remaining_of_expected
      split: sum.splits)

lemma resume_state_off:
  "resume_state ev file doi_list False w = (Inr ([], doi_list), w)"
  by (simp add: resume_state_def ret_def)

lemma analyze_citations_effect:
  assumes "resume_state ev (checkpoint_name timestamp) doi_list resume w = (Inr (results, remaining), w)"
  shows "\<exists>r w' k. analyze_citations ev timestamp doi_list delay ci resume w = (r, w')
     \<and> k \<le> length remaining
     \<and> sent w' = sent w @ concat (map provider_urls (take k remaining))
     \<and> (\<forall>name. name \<noteq> checkpoint_name timestamp \<longrightarrow> files w' name = files w name)
     \<and> (\<forall>rs. r = Inr rs \<longrightarrow> k = length remaining
           \<and> map doi_of rs = map doi_of results @ map (\<lambda>doi. Some (PStr doi)) remaining)"
proof -
  obtain r1 w1 k where 1:
    "process_all ev (checkpoint_name timestamp) delay ci (length remaining) 1 remaining results w = (r1, w1)"
    "k \<le> length remaining"
    "sent w1 = sent w @ concat (map provider_urls (take k remaining))"
    "\<forall>name. name \<noteq> checkpoint_name timestamp \<longrightarrow> files w1 name = files w name"
    "\<forall>rs. r1 = Inr rs \<longrightarrow> k = length remaining
           \<and> map doi_of rs = map doi_of results @ map (\<lambda>doi. Some (PStr doi)) remaining"
    using process_all_effect by blast
  show ?thesis
  proof (cases r1)
    case (Inl e)
    with 1 assms show ?thesis
      by (intro exI [of _ "Inl e"] exI [of _ w1] exI [of _ k])
        (simp add: analyze_citations_def Let_def seq_def)
  next
    case (Inr rs)
    obtain w2 where 2: "save_checkpoint ev rs (checkpoint_name timestamp) w1 = (Inr (), w2)"
      "sent w2 = sent w1"
      "\<forall>name. name \<noteq> checkpoint_name timestamp \<longrightarrow> files w2 name = files w1 name"
      using save_checkpoint_effect by blast
    with 1 assms Inr show ?thesis
      by (intro exI [of _ "Inr rs"] exI [of _ w2] exI [of _ k])
        (simp add: analyze_citations_def Let_def seq_def ret_def)
  qed
qed

lemma analyze_citations_abort:
  assumes "resume_state ev (checkpoint_name timestamp) doi_list resume w = (Inl e, w)"
  shows "analyze_citations ev timestamp doi_list delay ci resume w = (Inl e, w)"
  using assms by (simp add: analyze_citations_def Let_def seq_def)

lemma analyze_citations_files:
  assumes "name \<noteq> checkpoint_name timestamp"
  shows "files (snd (analyze_citations ev timestamp doi_list delay ci resume w)) name = files w name"
proof -
  obtain rows where l: "load_checkpoint ev (checkpoint_name timestamp) w = (Inr rows, w)"
    using load_checkpoint_effect by blast
  consider (abort) e where "resume_state ev (checkpoint_name timestamp) doi_list resume w = (Inl e, w)"
    | (go) results remaining where
      "resume_state ev (checkpoint_name timestamp) doi_list resume w = (Inr (results, remaining), w)"
    using resume_state_effect [OF l, of doi_list] resume_state_off [of ev "checkpoint_name timestamp" doi_list w]
    by (cases resume; cases "processed_of rows") auto
  then show ?thesis
  proof cases
    case abort
    then show ?thesis by (simp add: analyze_citations_abort)
  next
    case go
    from analyze_citations_effect [OF go, of delay ci] assms show ?thesis
      by auto
  qed
qed

lemma checkpoint_name_inject: "checkpoint_name a = checkpoint_name b \<longleftrightarrow> a = b"
  by (simp add: checkpoint_name_def)

subsection \<open>Resuming\<close>

text \<open>
  Claim C1 (the code does not do this). The claim: after a run over a set of
  identifiers has written its checkpoint, a restart over the same identifiers with
  \<^verbatim>\<open>resume_from_checkpoint\<close> enabled processes no identifier. The code: the checkpoint
  file is named after the time at which the call starts (lines 152 and 153), so the
  restart looks for a file of another name, finds none, and lines 156 to 160 leave every
  identifier to be processed again. Here the first run starts at 12:00:00 and the
  restart at 12:00:01, whatever the providers answer and whatever pandas writes: the
  restart begins with no rows and with the whole input as remaining identifiers.
\<close>

theorem restart_finds_no_checkpoint:
  "resume_state ev (checkpoint_name ''20240101_120001'') [''10.1234/a''] True
     (snd (analyze_citations ev ''20240101_120000'' [''10.1234/a''] 2 100 True fresh_world))
   = (Inr ([], [''10.1234/a'']),
      snd (analyze_citations ev ''20240101_120000'' [''10.1234/a''] 2 100 True fresh_world))"
proof -
  let ?w1 = "snd (analyze_citations ev ''20240101_120000'' [''10.1234/a''] 2 100 True fresh_world)"
  have "files ?w1 (checkpoint_name ''20240101_120001'') = files fresh_world (checkpoint_name ''20240101_120001'')"
    by (rule analyze_citations_files) (simp add: checkpoint_name_inject)
  then have "files ?w1 (checkpoint_name ''20240101_120001'') = None"
    by (simp add: fresh_world_def)
  then have "load_checkpoint ev (checkpoint_name ''20240101_120001'') ?w1 = (Inr [], ?w1)"
    by (rule load_checkpoint_absent)
  from resume_state_effect [OF this, of "[''10.1234/a'']"] show ?thesis
    by (simp add: expected_remaining_def)
qed

subsection \<open>Order of processing\<close>

text \<open>
  Claim C9. The requests of a run are, in this order, the requests for the remaining
  identifiers, where the remaining identifiers are the input identifiers that are not
  in the loaded checkpoint, in input order (the whole input when resuming is off), and
  the requests for one identifier are CrossRef, then OpenAlex, then Dimensions. A run
  that returns has made the requests for all remaining identifiers; a run that raises
  has made them for the first \<open>k\<close> of them.
\<close>

theorem processing_order:
  "\<exists>rows k. load_checkpoint ev (checkpoint_name timestamp) w = (Inr rows, w)
     \<and> k \<le> length (if resume then expected_remaining rows doi_list else doi_list)
     \<and> sent (snd (analyze_citations ev timestamp doi_list delay ci resume w))
         = sent w @ concat (map provider_urls
             (take k (if resume then expected_remaining rows doi_list else doi_list)))
     \<and> (\<forall>rs. fst (analyze_citations ev timestamp doi_list delay ci resume w) = Inr rs
           \<longrightarrow> k = length (if resume then expected_remaining rows doi_list else doi_list))"
proof -
  obtain rows where l: "load_checkpoint ev (checkpoint_name timestamp) w = (Inr rows, w)"
    using load_checkpoint_effect by blast
  let ?rem = "if resume then expected_remaining rows doi_list else doi_list"
  consider (abort) e where "resume_state ev (checkpoint_name timestamp) doi_list resume w = (Inl e, w)"
    | (go) results where
      "resume_state ev (checkpoint_name timestamp) doi_list resume w = (Inr (results, ?rem), w)"
    using resume_state_effect [OF l, of doi_list] resume_state_off [of ev "checkpoint_name timestamp" doi_list w]
    by (cases resume; cases "processed_of rows") auto
  then show ?thesis
  proof cases
    case abort
    with l show ?thesis
      by (intro exI [of _ rows] exI [of _ 0]) (simp add: analyze_citations_abort)
  next
    case go
    from analyze_citations_effect [OF go, of delay ci] obtain r w' k where
      "analyze_citations ev timestamp doi_list delay ci resume w = (r, w')"
      "k \<le> length ?rem" "sent w' = sent w @ concat (map provider_urls (take k ?rem))"
      "\<forall>rs. r = Inr rs \<longrightarrow> k = length ?rem"
      by blast
    with l show ?thesis
      by (intro exI [of _ rows] exI [of _ k]) simp
  qed
qed

theorem processing_order_witness:
  "load_checkpoint (env_status 404)
         (checkpoint_name ''20240101_120000'') (world_with_checkpoint ''20240101_120000'')
       = (Inr [[(''doi'', PStr ''10.1/b'')]], world_with_checkpoint ''20240101_120000'')
   \<and> expected_remaining [[(''doi'', PStr ''10.1/b'')]] [''10.1/a'', ''10.1/b'', ''10.1/c'']
       = [''10.1/a'', ''10.1/c'']
   \<and> \<not> isl (fst (analyze_citations (env_status 404) ''20240101_120000''
          [''10.1/a'', ''10.1/b'', ''10.1/c''] 2 100 True (world_with_checkpoint ''20240101_120000'')))
   \<and> sent (snd (analyze_citations (env_status 404) ''20240101_120000''
          [''10.1/a'', ''10.1/b'', ''10.1/c''] 2 100 True (world_with_checkpoint ''20240101_120000'')))
       = [''https://api.crossref.org/works/10.1/a'',
          ''https://api.openalex.org/works/doi:10.1/a'',
          ''http://metrics-api.dimensions.ai/doi/10.1/a'',
          ''https://api.crossref.org/works/10.1/c'',
          ''https://api.openalex.org/works/doi:10.1/c'',
          ''http://metrics-api.dimensions.ai/doi/10.1/c'']"
proof -
  let ?ev = "env_status 404"
  let ?w = "world_with_checkpoint ''20240101_120000''"
  let ?run = "analyze_citations ?ev ''20240101_120000'' [''10.1/a'', ''10.1/b'', ''10.1/c''] 2 100 True ?w"
  have loaded: "load_checkpoint ?ev (checkpoint_name ''20240101_120000'') ?w
      = (Inr [[(''doi'', PStr ''10.1/b'')]], ?w)"
    by (simp add: run_defs env_status_def world_with_checkpoint_def codec_defs)
  have remaining: "expected_remaining [[(''doi'', PStr ''10.1/b'')]] [''10.1/a'', ''10.1/b'', ''10.1/c'']
       = [''10.1/a'', ''10.1/c'']"
    by (simp add: expected_remaining_def doi_of_def)
  have completes: "\<not> isl (fst ?run)"
    by (simp add: run_defs env_status_def world_with_checkpoint_def codec_defs)
  then obtain rs where rs: "fst ?run = Inr rs"
    by (cases "fst ?run") auto
  from processing_order [of ?ev "''20240101_120000''" ?w True "[''10.1/a'', ''10.1/b'', ''10.1/c'']" 2 100]
  obtain k where "k \<le> length [''10.1/a'', ''10.1/c'']"
    "sent (snd ?run) = sent ?w @ concat (map provider_urls (take k [''10.1/a'', ''10.1/c'']))"
    "\<forall>rs. fst ?run = Inr rs \<longrightarrow> k = length [''10.1/a'', ''10.1/c'']"
    unfolding loaded using remaining by auto
  with rs have "sent (snd ?run) = sent ?w @ concat (map provider_urls [''10.1/a'', ''10.1/c''])"
    by simp
  then show ?thesis
    using loaded remaining completes
    by (simp add: provider_urls_def crossref_url_def openalex_url_def dimensions_url_def
        world_with_checkpoint_def)
qed

subsection \<open>Uniqueness of identifiers\<close>

text \<open>
  Claim C7 as stated fails: a run over an input that names the identifier 10.1/a twice,
  with no checkpoint, returns two rows with that identifier.
\<close>

theorem duplicates_are_processed_twice:
  "fst (analyze_citations (env_status 404) ''20240101_120000'' [''10.1/a'', ''10.1/a''] 2 100 True
          fresh_world)
     = Inr [[(''doi'', PStr ''10.1/a''), (''crossref_citations'', PInt 0),
             (''openalex_citations'', PInt 0), (''dimensions_citations'', PInt 0),
             (''max_citations'', PInt 0), (''processed_at'', PStr ''2024-01-01T12:00:00'')],
            [(''doi'', PStr ''10.1/a''), (''crossref_citations'', PInt 0),
             (''openalex_citations'', PInt 0), (''dimensions_citations'', PInt 0),
             (''max_citations'', PInt 0), (''processed_at'', PStr ''2024-01-01T12:00:00'')]]
   \<and> \<not> distinct (map doi_of
         [[(''doi'', PStr ''10.1/a''), (''crossref_citations'', PInt 0),
             (''openalex_citations'', PInt 0), (''dimensions_citations'', PInt 0),
             (''max_citations'', PInt 0), (''processed_at'', PStr ''2024-01-01T12:00:00'')],
            [(''doi'', PStr ''10.1/a''), (''crossref_citations'', PInt 0),
             (''openalex_citations'', PInt 0), (''dimensions_citations'', PInt 0),
             (''max_citations'', PInt 0), (''processed_at'', PStr ''2024-01-01T12:00:00'')]])"
  by (simp add: run_defs env_status_def fresh_world_def doi_of_def)

text \<open>
  Claim C7, amended. A run that returns gives the rows of the loaded checkpoint (none
  when resuming is off) followed by one row for each remaining identifier: the input
  identifiers that are not in the loaded checkpoint, in input order, each as often as
  the input names it. So, when the rows of the loaded checkpoint have pairwise
  different identifiers, the identifiers of the returned rows are pairwise different
  exactly when no remaining identifier is named twice in the input: a duplicate of a
  checkpointed identifier is dropped, a duplicate of another identifier gives a second
  row.
\<close>

theorem unique_identifiers:
  assumes "fst (analyze_citations ev timestamp doi_list delay ci resume w) = Inr rs"
    and "load_checkpoint ev (checkpoint_name timestamp) w = (Inr rows, w')"
    and "resume \<longrightarrow> distinct (map doi_of rows)"
  shows "map doi_of rs
           = map doi_of (if resume then rows else [])
             @ map (\<lambda>doi. Some (PStr doi))
                 (if resume then expected_remaining rows doi_list else doi_list)
         \<and> (distinct (map doi_of rs)
              \<longleftrightarrow> distinct (if resume then expected_remaining rows doi_list else doi_list))"
proof -
  obtain rows0 where l: "load_checkpoint ev (checkpoint_name timestamp) w = (Inr rows0, w)"
    using load_checkpoint_effect by blast
  with assms(2) have rows0: "rows0 = rows" by simp
  let ?rem = "if resume then expected_remaining rows doi_list else doi_list"
  let ?res = "if resume then rows else []"
  consider (abort) e where "resume_state ev (checkpoint_name timestamp) doi_list resume w = (Inl e, w)"
    | (go) "resume_state ev (checkpoint_name timestamp) doi_list resume w = (Inr (?res, ?rem), w)"
    using resume_state_effect [OF l, of doi_list]
      resume_state_off [of ev "checkpoint_name timestamp" doi_list w] rows0
    by (cases resume; cases "processed_of rows") auto
  then show ?thesis
  proof cases
    case abort
    with assms(1) show ?thesis by (simp add: analyze_citations_abort)
  next
    case go
    from analyze_citations_effect [OF go, of delay ci] assms(1)
    have ids: "map doi_of rs = map doi_of ?res @ map (\<lambda>doi. Some (PStr doi)) ?rem"
      by auto
    have new: "distinct (map (\<lambda>doi. Some (PStr doi)) ?rem) \<longleftrightarrow> distinct ?rem"
      by (simp add: distinct_map inj_on_def)
    have apart: "set (map doi_of ?res) \<inter> set (map (\<lambda>doi. Some (PStr doi)) ?rem) = {}"
      by (auto simp: expected_remaining_def) (metis imageI)
    have old: "distinct (map doi_of ?res)"
      using assms(3) by simp
    have "distinct (map doi_of rs) \<longleftrightarrow> distinct ?rem"
      unfolding ids using new apart old by (simp only: distinct_append) blast
    with ids show ?thesis by blast
  qed
qed

theorem unique_identifiers_witness:
  "fst (analyze_citations (env_status 404) ''20240101_120000''
          [''10.1/b'', ''10.1/b'', ''10.1/a''] 2 100 True (world_with_checkpoint ''20240101_120000''))
     = Inr [[(''doi'', PStr ''10.1/b'')],
            [(''doi'', PStr ''10.1/a''), (''crossref_citations'', PInt 0),
             (''openalex_citations'', PInt 0), (''dimensions_citations'', PInt 0),
             (''max_citations'', PInt 0), (''processed_at'', PStr ''2024-01-01T12:00:00'')]]
   \<and> load_checkpoint (env_status 404)
         (checkpoint_name ''20240101_120000'') (world_with_checkpoint ''20240101_120000'')
       = (Inr [[(''doi'', PStr ''10.1/b'')]], world_with_checkpoint ''20240101_120000'')
   \<and> distinct (map doi_of [[(''doi'', PStr ''10.1/b'')]])
   \<and> expected_remaining [[(''doi'', PStr ''10.1/b'')]] [''10.1/b'', ''10.1/b'', ''10.1/a'']
       = [''10.1/a'']
   \<and> distinct (map doi_of
         [[(''doi'', PStr ''10.1/b'')],
            [(''doi'', PStr ''10.1/a''), (''crossref_citations'', PInt 0),
             (''openalex_citations'', PInt 0), (''dimensions_citations'', PInt 0),
             (''max_citations'', PInt 0), (''processed_at'', PStr ''2024-01-01T12:00:00'')]])"
proof -
  let ?ev = "env_status 404"
  let ?w = "world_with_checkpoint ''20240101_120000''"
  let ?rs = "[[(''doi'', PStr ''10.1/b'')],
            [(''doi'', PStr ''10.1/a''), (''crossref_citations'', PInt 0),
             (''openalex_citations'', PInt 0), (''dimensions_citations'', PInt 0),
             (''max_citations'', PInt 0), (''processed_at'', PStr ''2024-01-01T12:00:00'')]]"
  have run: "fst (analyze_citations ?ev ''20240101_120000'' [''10.1/b'', ''10.1/b'', ''10.1/a'']
        2 100 True ?w) = Inr ?rs"
    by (simp add: run_defs env_status_def world_with_checkpoint_def codec_defs)
  have loaded: "load_checkpoint ?ev (checkpoint_name ''20240101_120000'') ?w
      = (Inr [[(''doi'', PStr ''10.1/b'')]], ?w)"
    by (simp add: run_defs env_status_def world_with_checkpoint_def codec_defs)
  have stored: "True \<longrightarrow> distinct (map doi_of [[(''doi'', PStr ''10.1/b'')]])"
    by simp
  have remaining: "expected_remaining [[(''doi'', PStr ''10.1/b'')]] [''10.1/b'', ''10.1/b'', ''10.1/a'']
       = [''10.1/a'']"
    by (simp add: expected_remaining_def doi_of_def)
  from unique_identifiers [OF run loaded stored] run loaded stored remaining
  show ?thesis by (simp add: doi_of_def)
qed

subsection \<open>Cleaning of identifiers\<close>

text \<open>
  Claim C2 (the code does not do this). The claim: the loader removes exactly the leading
  \<^verbatim>\<open>https://doi.org/\<close> or \<^verbatim>\<open>doi:\<close> and leaves later occurrences of these
  substrings in place. The code: after the test \<^verbatim>\<open>startswith\<close>, lines 45 and 47 call
  \<^verbatim>\<open>str.replace\<close>, which removes every occurrence, so the identifier
  \<^verbatim>\<open>doi:10.1234/doi:5678\<close> is cleaned to \<^verbatim>\<open>10.1234/5678\<close> and not to
  \<^verbatim>\<open>10.1234/doi:5678\<close>. The two examples of the specification and the blank line
  come out as it says.
\<close>

theorem clean_doi_removes_inner_occurrences:
  "clean_doi ''doi:10.1234/doi:5678'' = ''10.1234/5678''
   \<and> clean_doi ''doi:10.1234/doi:5678'' \<noteq> drop (length ''doi:'') (strip ''doi:10.1234/doi:5678'')
   \<and> clean_dois [''https://doi.org/10.1002/x'', ''doi:10.1/y'', '' '']
        = [''10.1002/x'', ''10.1/y'']"
  by (simp add: clean_dois_def clean_doi_def strip_def is_space_def startswith_def replace_def)

subsection \<open>Manual entry\<close>

lemma strip_id:
  assumes "s \<noteq> []" and "\<not> is_space (hd s)" and "\<not> is_space (last s)"
  shows "strip s = s"
proof -
  have lead: "dropWhile is_space s = s"
    using assms(2) by (simp add: dropWhile_eq_self_iff)
  have trail: "dropWhile is_space (rev s) = rev s"
    using assms(3) by (simp add: dropWhile_eq_self_iff hd_rev)
  show ?thesis
    by (simp add: strip_def lead trail)
qed

lemma strip_blank:
  assumes "list_all is_space a"
  shows "strip a = []"
proof -
  have blank: "dropWhile is_space a = []"
    using assms by (simp add: list_all_iff)
  show ?thesis
    unfolding strip_def blank by simp
qed

lemma dropWhile_after_blank:
  "list_all is_space a \<Longrightarrow> dropWhile is_space (a @ s) = dropWhile is_space s"
  by (rule dropWhile_append2) (simp add: list_all_iff)

lemma strip_after_blank: "list_all is_space a \<Longrightarrow> strip (a @ s) = strip s"
  by (simp add: strip_def dropWhile_after_blank)

lemma strip_before_blank:
  assumes "list_all is_space a"
  shows "strip (s @ a) = strip s"
proof (cases "list_all is_space s")
  case True
  with assms have "list_all is_space (s @ a)" by simp
  with True show ?thesis by (simp add: strip_blank)
next
  case False
  then have "dropWhile is_space (s @ a) = dropWhile is_space s @ a"
    by (auto simp: list_all_iff dropWhile_append1)
  moreover have "dropWhile is_space (rev a @ rev (dropWhile is_space s))
      = dropWhile is_space (rev (dropWhile is_space s))"
    using assms by (intro dropWhile_after_blank) (simp add: list_all_iff)
  ultimately show ?thesis
    by (simp add: strip_def)
qed

lemma strip_parts:
  "\<exists>a b. list_all is_space a \<and> list_all is_space b \<and> s = a @ strip s @ b"
proof -
  let ?t = "dropWhile is_space s"
  have 1: "s = takeWhile is_space s @ ?t"
    by simp
  have "?t = rev (dropWhile is_space (rev ?t)) @ rev (takeWhile is_space (rev ?t))"
    by (metis rev_append rev_rev_ident takeWhile_dropWhile_id)
  then have 2: "?t = strip s @ rev (takeWhile is_space (rev ?t))"
    by (simp add: strip_def)
  have "list_all is_space (takeWhile is_space s)"
    "list_all is_space (rev (takeWhile is_space (rev ?t)))"
    by (auto simp: list_all_iff dest: set_takeWhileD)
  with 1 2 show ?thesis
    by metis
qed

lemma split_nonempty: "split s sep \<noteq> []"
  by (induction s) (auto split: list.splits)

lemma split_no_sep: "sep \<notin> set p \<Longrightarrow> split p sep = [p]"
  by (induction p) auto

lemma split_append_sep: "sep \<notin> set p \<Longrightarrow> split (p @ sep # rest) sep = p # split rest sep"
  by (induction p) auto

lemma split_after: "sep \<notin> set a \<Longrightarrow> split (a @ s) sep = (a @ hd (split s sep)) # tl (split s sep)"
proof (induction a)
  case Nil
  then show ?case using split_nonempty [of s sep] by simp
next
  case (Cons x a)
  then show ?case by auto
qed

lemma split_before:
  "sep \<notin> set a \<Longrightarrow> split (s @ a) sep = butlast (split s sep) @ [last (split s sep) @ a]"
proof (induction s)
  case Nil
  then show ?case by (simp add: split_no_sep)
next
  case (Cons x s)
  obtain q qs where q: "split s sep = q # qs"
    using split_nonempty [of s sep] by (cases "split s sep") auto
  with Cons show ?case
    by (cases qs) auto
qed

lemma map_strip_split_strip:
  assumes "\<not> is_space sep"
  shows "map strip (split (strip s) sep) = map strip (split s sep)"
proof -
  obtain a b where ab: "list_all is_space a" "list_all is_space b" "s = a @ strip s @ b"
    using strip_parts by blast
  let ?core = "split (strip s) sep"
  from ab assms have free: "sep \<notin> set a" "sep \<notin> set b"
    by (auto simp: list_all_iff)
  have core: "?core \<noteq> []"
    by (rule split_nonempty)
  have "split (strip s @ b) sep = butlast ?core @ [last ?core @ b]"
    using free by (simp add: split_before)
  then have "map strip (split (strip s @ b) sep) = map strip (butlast ?core @ [last ?core])"
    using ab(2) by (simp add: strip_before_blank)
  then have 1: "map strip (split (strip s @ b) sep) = map strip ?core"
    using core by simp
  let ?rest = "split (strip s @ b) sep"
  have rest: "?rest \<noteq> []"
    by (rule split_nonempty)
  have "split (a @ strip s @ b) sep = (a @ hd ?rest) # tl ?rest"
    using free by (simp add: split_after)
  then have "map strip (split (a @ strip s @ b) sep) = map strip (hd ?rest # tl ?rest)"
    using ab(1) by (simp add: strip_after_blank)
  then have "map strip (split (a @ strip s @ b) sep) = map strip ?rest"
    using rest by simp
  with 1 ab(3) show ?thesis
    by simp
qed

lemma split_join:
  "ds \<noteq> [] \<Longrightarrow> \<forall>d \<in> set ds. CHR '','' \<notin> set d \<Longrightarrow> split (join ds) (CHR '','') = ds"
  by (induction ds rule: join.induct) (simp_all add: split_no_sep split_append_sep)

lemma comma_is_not_space: "\<not> is_space (CHR '','')"
  by (simp add: is_space_def)

lemma entry_ok_text:
  assumes "entry_ok e"
  shows "CHR '','' \<notin> set (entry_text e)" and "strip (entry_text e) = entry_identifier e"
proof -
  obtain l d r where e: "e = (l, d, r)"
    by (cases e) auto
  with assms have ok: "list_all is_space l" "list_all is_space r" "d = [] \<or> manual_identifier d"
    by (simp_all add: entry_ok_def)
  from ok show "CHR '','' \<notin> set (entry_text e)"
    using comma_is_not_space by (auto simp: e entry_text_def list_all_iff manual_identifier_def)
  have "strip d = d"
  proof (cases "d = []")
    case True
    then show ?thesis by (simp add: strip_def)
  next
    case False
    with ok(3) show ?thesis
      by (intro strip_id) (simp_all add: manual_identifier_def)
  qed
  moreover have "strip (l @ d @ r) = strip d"
    using ok strip_after_blank [of l "d @ r"] strip_before_blank [of r d] by simp
  ultimately show "strip (entry_text e) = entry_identifier e"
    by (simp add: e entry_text_def entry_identifier_def)
qed

lemma manual_dois_typed:
  assumes "list_all entry_ok entries"
  shows "manual_dois (strip (typed entries)) = entered entries"
proof -
  let ?texts = "map entry_text entries"
  have ids: "map strip ?texts = map entry_identifier entries"
    using assms entry_ok_text(2) by (simp add: list_all_iff)
  have pieces: "filter (\<lambda>d. d \<noteq> []) (map strip (split (join ?texts) (CHR '','')))
      = filter (\<lambda>d. d \<noteq> []) (map strip ?texts)"
  proof (cases entries)
    case Nil
    then show ?thesis by (simp add: strip_def)
  next
    case (Cons e es)
    then have "?texts \<noteq> []" by simp
    moreover have "\<forall>d \<in> set ?texts. CHR '','' \<notin> set d"
      using assms entry_ok_text(1) by (auto simp: list_all_iff)
    ultimately have "split (join ?texts) (CHR '','') = ?texts"
      by (rule split_join)
    then show ?thesis by simp
  qed
  have "manual_dois (strip (typed entries))
      = filter (\<lambda>d. d \<noteq> []) (map strip (split (strip (join ?texts)) (CHR '','')))"
    by (simp add: manual_dois_def typed_def filter_map comp_def)
  also have "\<dots> = filter (\<lambda>d. d \<noteq> []) (map strip (split (join ?texts) (CHR '','')))"
    by (simp only: map_strip_split_strip [OF comma_is_not_space])
  also have "\<dots> = filter (\<lambda>d. d \<noteq> []) (map entry_identifier entries)"
    by (simp only: pieces ids)
  finally show ?thesis
    by (simp add: entered_def)
qed

lemma strip_2: "strip ''2'' = ''2''" "strip ''1'' = ''1''"
  by (simp_all add: strip_def is_space_def)

text \<open>
  Claim C10. Identifiers entered by hand are split at commas, trimmed and kept when not
  empty, and nothing else is done to them: whatever white space is typed around the
  entries, and whichever entries are left empty, the list that reaches
  \<^verbatim>\<open>analyze_citations\<close> is the list of the identifiers typed, unchanged and in the order
  typed, also where an identifier starts with \<^verbatim>\<open>doi:\<close> or \<^verbatim>\<open>https://doi.org/\<close>; and
  each provider client puts the identifier it is given into its request URL as it is.
\<close>

theorem manual_entry_keeps_prefixes:
  "(list_all entry_ok entries \<longrightarrow> manual_dois (strip (typed entries)) = entered entries)
   \<and> (list_all entry_ok entries \<and> entered entries \<noteq> [] \<and> length (entered entries) \<le> 6000
      \<longrightarrow> main_dois disk ''2'' (typed entries) = ([], Some (entered entries)))
   \<and> sent (snd (get_crossref_citations ev doi w)) = sent w @ [''https://api.crossref.org/works/'' @ doi]
   \<and> sent (snd (get_openalex_citations ev doi w)) = sent w @ [''https://api.openalex.org/works/doi:'' @ doi]
   \<and> sent (snd (get_dimensions_citations ev doi w)) = sent w @ [''http://metrics-api.dimensions.ai/doi/'' @ doi]"
proof -
  have "main_dois disk ''2'' (typed entries) = ([], Some (entered entries))"
    if "list_all entry_ok entries \<and> entered entries \<noteq> [] \<and> length (entered entries) \<le> 6000"
    using that by (simp add: main_dois_def strip_2 manual_dois_typed check_not_empty_def)
  moreover have "sent (snd (get_crossref_citations ev doi w)) = sent w @ [''https://api.crossref.org/works/'' @ doi]"
    by (auto simp: get_crossref_citations_def try_prog_def seq_def requests_get_def ret_def
      lift_def crossref_url_def split: sum.splits prod.splits)
  moreover have "sent (snd (get_openalex_citations ev doi w)) = sent w @ [''https://api.openalex.org/works/doi:'' @ doi]"
    by (auto simp: get_openalex_citations_def try_prog_def seq_def requests_get_def ret_def
      lift_def openalex_url_def split: sum.splits prod.splits)
  moreover have "sent (snd (get_dimensions_citations ev doi w)) = sent w @ [''http://metrics-api.dimensions.ai/doi/'' @ doi]"
    by (auto simp: get_dimensions_citations_def try_prog_def seq_def requests_get_def ret_def
      lift_def dimensions_url_def split: sum.splits prod.splits)
  ultimately show ?thesis
    by (simp add: manual_dois_typed)
qed

theorem manual_entry_keeps_prefixes_witness:
  "list_all entry_ok [('' '', ''doi:10.1/y'', ''''), ('' '', ''https://doi.org/10.1/z'', '' ''),
       ('' '', '''', ''''), ('''', ''10.1/x'', '''')]
   \<and> typed [('' '', ''doi:10.1/y'', ''''), ('' '', ''https://doi.org/10.1/z'', '' ''),
       ('' '', '''', ''''), ('''', ''10.1/x'', '''')]
       = '' doi:10.1/y, https://doi.org/10.1/z , ,10.1/x''
   \<and> entered [('' '', ''doi:10.1/y'', ''''), ('' '', ''https://doi.org/10.1/z'', '' ''),
       ('' '', '''', ''''), ('''', ''10.1/x'', '''')]
       = [''doi:10.1/y'', ''https://doi.org/10.1/z'', ''10.1/x'']
   \<and> main_dois (disk_of_lines []) ''2'' '' doi:10.1/y, https://doi.org/10.1/z , ,10.1/x''
       = ([], Some [''doi:10.1/y'', ''https://doi.org/10.1/z'', ''10.1/x''])
   \<and> clean_dois [''doi:10.1/y'', ''https://doi.org/10.1/z'', ''10.1/x'']
       = [''10.1/y'', ''10.1/z'', ''10.1/x'']"
proof -
  let ?entries = "[('' '', ''doi:10.1/y'', ''''), ('' '', ''https://doi.org/10.1/z'', '' ''),
       ('' '', '''', ''''), ('''', ''10.1/x'', '''')]"
  have ok: "list_all entry_ok ?entries"
    by (simp add: entry_ok_def manual_identifier_def is_space_def)
  have typed_text: "typed ?entries = '' doi:10.1/y, https://doi.org/10.1/z , ,10.1/x''"
    by (simp add: typed_def entry_text_def)
  have ids: "entered ?entries = [''doi:10.1/y'', ''https://doi.org/10.1/z'', ''10.1/x'']"
    by (simp add: entered_def entry_identifier_def)
  have c: "clean_dois [''doi:10.1/y'', ''https://doi.org/10.1/z'', ''10.1/x'']
       = [''10.1/y'', ''10.1/z'', ''10.1/x'']"
    by (simp add: clean_dois_def clean_doi_def strip_def is_space_def startswith_def replace_def)
  from manual_entry_keeps_prefixes [of ?entries "disk_of_lines []"] ok ids
  have "main_dois (disk_of_lines []) ''2'' (typed ?entries)
       = ([], Some [''doi:10.1/y'', ''https://doi.org/10.1/z'', ''10.1/x''])"
    by simp
  with ok typed_text ids c show ?thesis by simp
qed

subsection \<open>Checkpoint round trip\<close>

lemma foldl_add_column_known:
  "set ks \<subseteq> set names \<Longrightarrow> foldl add_column names ks = names"
  by (induction ks arbitrary: names) (auto simp: add_column_def)

lemma foldl_add_column_new:
  "distinct (names @ ks) \<Longrightarrow> foldl add_column names ks = names @ ks"
  by (induction ks arbitrary: names) (auto simp: add_column_def)

lemma columns_of_same_keys:
  assumes "results \<noteq> []" and "same_keys keys results" and "distinct keys"
  shows "columns_of results = keys"
proof -
  obtain r rs where rs: "results = r # rs"
    using assms(1) by (cases results) auto
  with assms(2) have r: "map fst r = keys" and rest: "\<forall>x \<in> set rs. map fst x = keys"
    by (auto simp: same_keys_def list_all_iff)
  have "foldl add_column [] (keys @ concat (map (map fst) rs))
      = foldl add_column (foldl add_column [] keys) (concat (map (map fst) rs))"
    by simp
  also have "foldl add_column [] keys = keys"
    using foldl_add_column_new [of "[]" keys] assms(3) by simp
  also have "foldl add_column keys (concat (map (map fst) rs)) = keys"
    using rest by (intro foldl_add_column_known) auto
  finally show ?thesis
    by (simp add: columns_of_def rs r)
qed

















text \<open>
  Identifiers that are all numerals are read back as numbers: the column of identifiers
  is then a column of integers for pandas.
\<close>

lemma numeric_identifiers_are_read_back_as_numbers:
  "fst (load_checkpoint (env_status 404) ''checkpoint.csv''
          (snd (save_checkpoint (env_status 404)
                  [[(''doi'', PStr ''123'')], [(''doi'', PStr ''0456'')]]
                  ''checkpoint.csv'' fresh_world)))
     = Inr [[(''doi'', PInt 123)], [(''doi'', PInt 456)]]"
  by (simp add: save_checkpoint_def load_checkpoint_def write_csv_def try_prog_def lift_def
      ret_def raise_def to_csv_def columns_of_def add_column_def column_values_def
      float_column_def codec_defs env_status_def fresh_world_def)



subsection \<open>Truncation of the input\<close>

lemma resume_without_checkpoint:
  "files w file = None \<Longrightarrow> resume_state ev file dois True w = (Inr ([], dois), w)"
  by (simp add: resume_state_def load_checkpoint_def try_prog_def ret_def seq_def lift_def
      remaining_of_def)

lemma write_csv_sent: "sent (snd (write_csv ev results file w)) = sent w"
  by (simp add: write_csv_def split: option.splits)

lemma display_and_export_sent: "sent (snd (display_and_export ev results final w)) = sent w"
  by (auto simp: display_and_export_def seq_def lift_def write_csv_def
      split: option.splits sum.splits)

text \<open>After the prompts, \<^verbatim>\<open>main\<close> is the analysis followed by the display and export.\<close>

lemma main_after_prompts:
  assumes "main_dois disk (method_answer ans) (entry_answer ans) = (printed, Some dois)"
    and "read_delay ev (delay_answer ans) = Inr delay"
    and "read_checkpoint_interval ev (checkpoint_answer ans) = Inr ci"
    and "confirmed (confirm_answer ans)"
  shows "main ev disk ans timestamp final w =
     (case analyze_citations ev timestamp dois delay ci True w of
        (Inl e, w1) \<Rightarrow> (Inr (printed, Failed e), w1)
      | (Inr rows, w1) \<Rightarrow>
          (case display_and_export ev rows final w1 of
             (Inl e, w2) \<Rightarrow> (Inr (printed, Failed e), w2)
           | (Inr u, w2) \<Rightarrow> (Inr (printed, Completed rows), w2)))"
  using assms
  by (simp add: main_def seq_def lift_def try_prog_def ret_def split: prod.splits sum.splits)

text \<open>
  Claim C8. When the list loaded from a file, or the list entered by hand, has more than
  6000 identifiers, \<^verbatim>\<open>main\<close> prints the truncation warning and nothing else in its input
  stage, and the run that follows when the operator's answers are accepted (a delay and
  a checkpoint interval that parse, and the confirmation) makes the requests for the
  first 6000 identifiers, in their order, and for no other identifier: all of them when
  the run completes, then with one row for each of the first 6000 identifiers; those
  for the first \<open>k\<close> of them when the run fails. The run is taken to find no checkpoint
  file under its own name.
\<close>

theorem input_is_truncated:
  assumes "(strip (method_answer ans) = ''1''
              \<and> dois = load_dois_from_file disk (strip (entry_answer ans))
              \<and> warning = Truncating_found (length dois))
           \<or> (strip (method_answer ans) = ''2''
              \<and> dois = manual_dois (strip (entry_answer ans))
              \<and> warning = Truncating_entered (length dois))"
    and "6000 < length dois"
    and "read_delay ev (delay_answer ans) = Inr delay"
    and "read_checkpoint_interval ev (checkpoint_answer ans) = Inr ci"
    and "confirmed (confirm_answer ans)"
    and "files w (checkpoint_name timestamp) = None"
  shows "\<exists>out w' k.
      main ev disk ans timestamp final w = (Inr ([warning], out), w')
      \<and> k \<le> 6000
      \<and> sent w' = sent w @ concat (map provider_urls (take k dois))
      \<and> out \<noteq> Exited \<and> out \<noteq> Cancelled
      \<and> (\<forall>rows. out = Completed rows \<longrightarrow>
            k = 6000 \<and> map doi_of rows = map (\<lambda>doi. Some (PStr doi)) (take 6000 dois))"
proof -
  let ?dois = "take 6000 dois"
  from assms(2) have nonempty: "dois \<noteq> []" "?dois \<noteq> []"
    by auto
  have stage: "main_dois disk (method_answer ans) (entry_answer ans) = ([warning], Some ?dois)"
    using assms(1,2) nonempty
    by (auto simp: main_dois_def check_not_empty_def Let_def)
  note main = main_after_prompts [OF stage assms(3,4,5), of timestamp final w]
  have start: "resume_state ev (checkpoint_name timestamp) ?dois True w = (Inr ([], ?dois), w)"
    using assms(6) by (rule resume_without_checkpoint)
  from analyze_citations_effect [OF start, of delay ci] obtain r w1 k where run:
    "analyze_citations ev timestamp ?dois delay ci True w = (r, w1)"
    "k \<le> length ?dois"
    "sent w1 = sent w @ concat (map provider_urls (take k ?dois))"
    "\<forall>rs. r = Inr rs \<longrightarrow> k = length ?dois
           \<and> map doi_of rs = map doi_of [] @ map (\<lambda>doi. Some (PStr doi)) ?dois"
    by blast
  from assms(2) have len: "length ?dois = 6000"
    by simp
  from run(2) len have k: "k \<le> 6000" "take k ?dois = take k dois"
    by (simp_all add: min_def)
  show ?thesis
  proof (cases r)
    case (Inl e)
    with main run have "main ev disk ans timestamp final w = (Inr ([warning], Failed e), w1)"
      by simp
    with run(3) k show ?thesis
      by (intro exI [of _ "Failed e"] exI [of _ w1] exI [of _ k]) simp
  next
    case (Inr rows)
    with run(4) len have rows: "k = 6000" "map doi_of rows = map (\<lambda>doi. Some (PStr doi)) ?dois"
      by simp_all
    obtain r2 w2 where export: "display_and_export ev rows final w1 = (r2, w2)"
      by (cases "display_and_export ev rows final w1") auto
    then have sent2: "sent w2 = sent w1"
      using display_and_export_sent [of ev rows final w1] by simp
    show ?thesis
    proof (cases r2)
      case (Inl e)
      with main run(1) Inr export
      have "main ev disk ans timestamp final w = (Inr ([warning], Failed e), w2)"
        by simp
      with run(3) k sent2 show ?thesis
        by (intro exI [of _ "Failed e"] exI [of _ w2] exI [of _ k]) simp
    next
      case (Inr u)
      with main run(1) \<open>r = Inr rows\<close> export
      have "main ev disk ans timestamp final w = (Inr ([warning], Completed rows), w2)"
        by simp
      with run(3) k sent2 rows show ?thesis
        by (intro exI [of _ "Completed rows"] exI [of _ w2] exI [of _ k]) simp
    qed
  qed
qed

text \<open>The example identifiers, the example disk and the example providers.\<close>

lemma length_many_dois: "length (many_dois n) = n"
  by (simp add: many_dois_def)

lemma take_many_dois: "m \<le> n \<Longrightarrow> take m (many_dois n) = many_dois m"
  by (simp add: many_dois_def take_map min_def)

lemma many_dois_plain:
  assumes "d \<in> set (many_dois n)"
  shows "strip d = d" and "clean_doi d = d" and "manual_identifier d"
proof -
  from assms obtain i where d: "d = ''10.1/'' @ replicate i (CHR ''x'')"
    by (auto simp: many_dois_def)
  have ends: "d \<noteq> []" "hd d = CHR ''1''" "last d = CHR ''/'' \<or> last d = CHR ''x''"
    by (cases i; simp add: d)+
  then have no_space: "\<not> is_space (hd d)" "\<not> is_space (last d)"
    by (auto simp: is_space_def)
  with ends(1) show strip: "strip d = d"
    by (rule strip_id)
  have "\<not> startswith d ''https://doi.org/''" "\<not> startswith d ''doi:''"
    by (simp_all add: d startswith_def)
  with strip show "clean_doi d = d"
    by (simp add: clean_doi_def)
  have "CHR '','' \<notin> set d"
    by (auto simp: d)
  with ends(1) no_space show "manual_identifier d"
    by (simp add: manual_identifier_def)
qed

lemma load_many_dois:
  "load_dois_from_file (disk_of_lines (many_dois n)) ''dois.txt'' = many_dois n"
proof -
  have plain: "\<forall>d \<in> set (many_dois n). strip d = d \<and> clean_doi d = d \<and> d \<noteq> []"
    using many_dois_plain by (auto simp: manual_identifier_def)
  then have "filter (\<lambda>line. strip line \<noteq> []) (many_dois n) = many_dois n"
    by (simp add: filter_id_conv)
  moreover have "map strip (many_dois n) = many_dois n"
    using plain by (simp add: map_idI)
  moreover have "map clean_doi (many_dois n) = many_dois n"
    using plain by (simp add: map_idI)
  moreover have "filter (\<lambda>doi. doi \<noteq> []) (many_dois n) = many_dois n"
    using plain by (simp add: filter_id_conv)
  moreover have "\<not> endswith ''dois.txt'' ''.csv''"
    by (simp add: endswith_def)
  ultimately show ?thesis
    by (simp add: load_dois_from_file_def read_dois_def disk_of_lines_def and_then_def
        try_except_def clean_dois_def)
qed

lemma enter_many_dois: "manual_dois (strip (join (many_dois n))) = many_dois n"
proof -
  let ?entries = "map (\<lambda>d. ([], d, [])) (many_dois n)"
  have "list_all entry_ok ?entries"
    using many_dois_plain(3) by (simp add: list_all_iff entry_ok_def)
  then have "manual_dois (strip (typed ?entries)) = entered ?entries"
    by (rule manual_dois_typed)
  moreover have "typed ?entries = join (many_dois n)"
    by (simp add: typed_def entry_text_def comp_def)
  moreover have "entered ?entries = many_dois n"
    using many_dois_plain(3)
    by (simp add: entered_def entry_identifier_def comp_def filter_id_conv manual_identifier_def)
  ultimately show ?thesis
    by simp
qed

lemma process_doi_404:
  assumes "ci \<noteq> 0" and "0 \<le> delay"
  shows "fst (process_doi (env_status 404) file delay ci n i doi results w)
    = Inr (results @ [row_404 doi])"
  using assms
  by (simp add: process_doi_def get_crossref_citations_def get_openalex_citations_def
      get_dimensions_citations_def requests_get_def try_prog_def seq_def ret_def lift_def
      raise_def sleep_def max_citations_def save_checkpoint_def write_csv_def Let_def
      env_status_def row_404_def)

lemma process_all_404:
  assumes "ci \<noteq> 0" and "0 \<le> delay"
  shows "fst (process_all (env_status 404) file delay ci n i dois results w)
    = Inr (results @ map row_404 dois)"
proof (induction dois arbitrary: i results w)
  case Nil
  show ?case by (simp add: ret_def)
next
  case (Cons doi rest)
  obtain w1 where "process_doi (env_status 404) file delay ci n i doi results w
      = (Inr (results @ [row_404 doi]), w1)"
    using process_doi_404 [OF assms, of "file" n i doi results w]
    by (cases "process_doi (env_status 404) file delay ci n i doi results w") auto
  with Cons.IH [of "Suc i" "results @ [row_404 doi]" w1] show ?case
    by (simp add: seq_def)
qed

lemma analyze_404:
  assumes "files w (checkpoint_name timestamp) = None"
  shows "fst (analyze_citations (env_status 404) timestamp dois 2 100 True w)
    = Inr (map row_404 dois)"
proof -
  have start: "resume_state (env_status 404) (checkpoint_name timestamp) dois True w
      = (Inr ([], dois), w)"
    using assms by (rule resume_without_checkpoint)
  obtain w1 where loop: "process_all (env_status 404) (checkpoint_name timestamp) 2 100
      (length dois) 1 dois [] w = (Inr (map row_404 dois), w1)"
    using process_all_404 [of 100 2 "checkpoint_name timestamp" "length dois" 1 dois "[]" w]
    by (cases "process_all (env_status 404) (checkpoint_name timestamp) 2 100
      (length dois) 1 dois [] w") auto
  obtain w2 where "save_checkpoint (env_status 404) (map row_404 dois)
      (checkpoint_name timestamp) w1 = (Inr (), w2)"
    using save_checkpoint_effect by blast
  with start loop show ?thesis
    by (simp add: analyze_citations_def Let_def seq_def ret_def)
qed

lemma export_404:
  assumes "dois \<noteq> []"
  shows "fst (display_and_export (env_status 404) (map row_404 dois) final w) = Inr ()"
proof -
  let ?keys = "[''doi'', ''crossref_citations'', ''openalex_citations'',
      ''dimensions_citations'', ''max_citations'', ''processed_at'']"
  have "columns_of (map row_404 dois) = ?keys"
    using assms by (intro columns_of_same_keys) (simp_all add: same_keys_def list_all_iff row_404_def)
  moreover have "list_all has_mean (column_values (map row_404 dois) key)"
    if "key \<in> {''crossref_citations'', ''openalex_citations'', ''dimensions_citations''}" for key
    using that by (auto simp: column_values_def list_all_iff row_404_def)
  ultimately have "column_mean (map row_404 dois) ''crossref_citations'' = Inr ()"
    "column_mean (map row_404 dois) ''openalex_citations'' = Inr ()"
    "column_mean (map row_404 dois) ''dimensions_citations'' = Inr ()"
    by (simp_all add: column_mean_def)
  then show ?thesis
    by (simp add: display_and_export_def seq_def lift_def write_csv_def env_status_def)
qed

theorem input_is_truncated_witness:
  "strip (method_answer (answers_with_defaults ''1'' ''dois.txt'')) = ''1''
   \<and> load_dois_from_file (disk_of_lines (many_dois 6001))
        (strip (entry_answer (answers_with_defaults ''1'' ''dois.txt''))) = many_dois 6001
   \<and> strip (method_answer (answers_with_defaults ''2'' (join (many_dois 6001)))) = ''2''
   \<and> manual_dois (strip (entry_answer (answers_with_defaults ''2'' (join (many_dois 6001)))))
       = many_dois 6001
   \<and> 6000 < length (many_dois 6001)
   \<and> distinct (many_dois 6001)
   \<and> take 6000 (many_dois 6001) = many_dois 6000
   \<and> fst (main (env_status 404) (disk_of_lines (many_dois 6001))
            (answers_with_defaults ''1'' ''dois.txt'') ''20240101_120000'' ''20240101_160000''
            fresh_world)
       = Inr ([Truncating_found 6001], Completed (map row_404 (many_dois 6000)))
   \<and> sent (snd (main (env_status 404) (disk_of_lines (many_dois 6001))
            (answers_with_defaults ''1'' ''dois.txt'') ''20240101_120000'' ''20240101_160000''
            fresh_world))
       = concat (map provider_urls (many_dois 6000))
   \<and> fst (main (env_status 404) (disk_of_lines [])
            (answers_with_defaults ''2'' (join (many_dois 6001))) ''20240101_120000''
            ''20240101_160000'' fresh_world)
       = Inr ([Truncating_entered 6001], Completed (map row_404 (many_dois 6000)))
   \<and> sent (snd (main (env_status 404) (disk_of_lines [])
            (answers_with_defaults ''2'' (join (many_dois 6001))) ''20240101_120000''
            ''20240101_160000'' fresh_world))
       = concat (map provider_urls (many_dois 6000))"
proof -
  let ?ev = "env_status 404"
  let ?by_file = "answers_with_defaults ''1'' ''dois.txt''"
  let ?by_hand = "answers_with_defaults ''2'' (join (many_dois 6001))"
  let ?disk = "disk_of_lines (many_dois 6001)"
  have m1: "strip (method_answer ?by_file) = ''1''"
    and m2: "strip (method_answer ?by_hand) = ''2''"
    by (simp_all add: answers_with_defaults_def strip_2)
  have path: "strip ''dois.txt'' = ''dois.txt''"
    by (simp add: strip_def is_space_def)
  have l1: "load_dois_from_file ?disk (strip (entry_answer ?by_file)) = many_dois 6001"
    by (simp add: answers_with_defaults_def path load_many_dois)
  have l2: "manual_dois (strip (entry_answer ?by_hand)) = many_dois 6001"
    by (simp add: answers_with_defaults_def enter_many_dois)
  have big: "6000 < length (many_dois 6001)"
    by (simp add: length_many_dois)
  have different: "distinct (many_dois 6001)"
    by (simp add: many_dois_def distinct_map inj_on_def)
  have first: "take 6000 (many_dois 6001) = many_dois 6000"
    by (simp add: take_many_dois)
  have prompts: "read_delay ?ev (delay_answer (answers_with_defaults m e)) = Inr 2"
    "read_checkpoint_interval ?ev (checkpoint_answer (answers_with_defaults m e)) = Inr 100"
    "confirmed (confirm_answer (answers_with_defaults m e))" for m e
    by (simp_all add: answers_with_defaults_def read_delay_def read_checkpoint_interval_def
        confirmed_def strip_def is_space_def)
  have fresh: "files fresh_world (checkpoint_name ''20240101_120000'') = None"
    by (simp add: fresh_world_def)
  have nonempty: "many_dois 6000 \<noteq> []" "many_dois 6001 \<noteq> []"
    using length_many_dois [of 6000] length_many_dois [of 6001] by auto
  have completes: "fst (main ?ev disk ans ''20240101_120000'' ''20240101_160000'' fresh_world)
      = Inr ([warning], Completed (map row_404 (many_dois 6000)))"
    if "main_dois disk (method_answer ans) (entry_answer ans) = ([warning], Some (many_dois 6000))"
      and "read_delay ?ev (delay_answer ans) = Inr 2"
      and "read_checkpoint_interval ?ev (checkpoint_answer ans) = Inr 100"
      and "confirmed (confirm_answer ans)" for disk ans warning
  proof -
    obtain w1 where run: "analyze_citations ?ev ''20240101_120000'' (many_dois 6000) 2 100 True
        fresh_world = (Inr (map row_404 (many_dois 6000)), w1)"
      using analyze_404 [OF fresh, of "many_dois 6000"]
      by (cases "analyze_citations ?ev ''20240101_120000'' (many_dois 6000) 2 100 True
        fresh_world") auto
    obtain w2 where "display_and_export ?ev (map row_404 (many_dois 6000)) ''20240101_160000'' w1
        = (Inr (), w2)"
      using export_404 [OF nonempty(1), of "''20240101_160000''" w1]
      by (cases "display_and_export ?ev (map row_404 (many_dois 6000)) ''20240101_160000'' w1") auto
    with run main_after_prompts [OF that, of "''20240101_120000''" "''20240101_160000''" fresh_world]
    show ?thesis by simp
  qed
  have stage1: "main_dois ?disk (method_answer ?by_file) (entry_answer ?by_file)
      = ([Truncating_found 6001], Some (many_dois 6000))"
    using m1 l1 nonempty
    by (simp add: main_dois_def Let_def check_not_empty_def length_many_dois first)
  have stage2: "main_dois (disk_of_lines []) (method_answer ?by_hand) (entry_answer ?by_hand)
      = ([Truncating_entered 6001], Some (many_dois 6000))"
    using m2 l2 nonempty
    by (simp add: main_dois_def Let_def check_not_empty_def length_many_dois first)
  note completes1 = completes [OF stage1 prompts]
  note completes2 = completes [OF stage2 prompts]
  have w1: "strip (method_answer ?by_file) = ''1''
      \<and> many_dois 6001 = load_dois_from_file ?disk (strip (entry_answer ?by_file))
      \<and> Truncating_found 6001 = Truncating_found (length (many_dois 6001))
    \<or> strip (method_answer ?by_file) = ''2''
      \<and> many_dois 6001 = manual_dois (strip (entry_answer ?by_file))
      \<and> Truncating_found 6001 = Truncating_entered (length (many_dois 6001))"
    using m1 l1 by (simp add: length_many_dois)
  have w2: "strip (method_answer ?by_hand) = ''1''
      \<and> many_dois 6001 = load_dois_from_file (disk_of_lines []) (strip (entry_answer ?by_hand))
      \<and> Truncating_entered 6001 = Truncating_found (length (many_dois 6001))
    \<or> strip (method_answer ?by_hand) = ''2''
      \<and> many_dois 6001 = manual_dois (strip (entry_answer ?by_hand))
      \<and> Truncating_entered 6001 = Truncating_entered (length (many_dois 6001))"
    using m2 l2 by (simp add: length_many_dois)
  from input_is_truncated [OF w1 big prompts fresh, of "''20240101_160000''"] completes1
  have sent1: "sent (snd (main ?ev ?disk ?by_file ''20240101_120000'' ''20240101_160000'' fresh_world))
      = concat (map provider_urls (many_dois 6000))"
    by (auto simp: first fresh_world_def)
  from input_is_truncated [OF w2 big prompts fresh, of "''20240101_160000''"] completes2
  have sent2: "sent (snd (main ?ev (disk_of_lines []) ?by_hand ''20240101_120000''
      ''20240101_160000'' fresh_world)) = concat (map provider_urls (many_dois 6000))"
    by (auto simp: first fresh_world_def)
  from m1 l1 m2 l2 big different first completes1 sent1 completes2 sent2 show ?thesis
    by (simp only:)
qed

end
